theory Spec2Isabelle
  imports Complex_Main "HOL-Library.Product_Lexorder" "HOL-Library.Multiset" "HOL-Library.Log_Nat"
begin

section \<open>The tournament score server (server.js)\<close>

text \<open>
  The server keeps one SQLite table, \<^verbatim>\<open>tournament_scores\<close>, and answers HTTP
  requests by running one SQL statement each. The embedding follows the handlers of
  \<^verbatim>\<open>server.js\<close> one by one; the SQL statements are modelled by functions on the list
  of table rows.

  Modelling decisions:
  \<^item> A field of the JSON request body is absent (\<open>Undefined\<close>), \<open>null\<close> or a value of the
    type the interface gives it (string, integer, number, JSON payload).
  \<^item> The numbers of a request body are modelled by \<open>int\<close> and \<open>rat\<close>: they reach the
    handler as the body parser read them, and the handler does not compute with them.
    A number that \<^verbatim>\<open>parseInt\<close> reads from a query string is rounded to a double.
  \<^item> A string of the request body is a \<open>string\<close>; the handlers only compare it and test
    it for emptiness. A query parameter is absent or one string, given by its UTF-16
    code units, which \<^verbatim>\<open>parseInt\<close> inspects.
  \<^item> \<^verbatim>\<open>CURRENT_TIMESTAMP\<close> has a resolution of one second; a timestamp is the number of
    seconds, supplied to each write as the clock reading \<open>now\<close>.
  \<^item> The table is the list of its rows in rowid order. \<^verbatim>\<open>ORDER BY\<close> is a stable sort
    of that list: SQL leaves the order of rows with equal sort keys to the engine.
  \<^item> The storage medium works: a statement fails only on a constraint of the schema or
    on a parameter of the wrong type.
  \<^item> A reply \<open>Inr r\<close> is the JSON object \<open>r\<close> sent with status 200; a reply \<open>Inl e\<close> is
    \<^verbatim>\<open>{success: false, message: ...}\<close> sent with the status of \<open>e\<close>.
\<close>

subsection \<open>JavaScript values\<close>

datatype 'a jsopt = Undefined | Null | Val 'a

datatype json =
    JObject "(string \<times> json) list"
  | JArray "json list"
  | JString string
  | JNumber rat
  | JBoolean bool
  | JNull

text \<open>Truthiness, as the operators \<^verbatim>\<open>!\<close> and \<^verbatim>\<open>||\<close> see it.\<close>

fun truthy_string :: "string jsopt \<Rightarrow> bool" where
  "truthy_string (Val s) = (s \<noteq> [])"
| "truthy_string _ = False"

fun truthy_number :: "'a::zero jsopt \<Rightarrow> bool" where
  "truthy_number (Val n) = (n \<noteq> 0)"
| "truthy_number _ = False"

fun truthy_json :: "json jsopt \<Rightarrow> bool" where
  "truthy_json (Val (JObject _)) = True"
| "truthy_json (Val (JArray _)) = True"
| "truthy_json (Val (JString s)) = (s \<noteq> [])"
| "truthy_json (Val (JNumber n)) = (n \<noteq> 0)"
| "truthy_json (Val (JBoolean b)) = b"
| "truthy_json _ = False"

text \<open>\<^verbatim>\<open>a || b\<close>, with \<open>b\<close> a literal.\<close>

definition or_string :: "string jsopt \<Rightarrow> string \<Rightarrow> string" where
  "or_string a b = (case a of Val s \<Rightarrow> (if truthy_string a then s else b) | _ \<Rightarrow> b)"

definition or_number :: "'a::zero jsopt \<Rightarrow> 'a \<Rightarrow> 'a" where
  "or_number a b = (case a of Val n \<Rightarrow> (if truthy_number a then n else b) | _ \<Rightarrow> b)"

definition or_json :: "json jsopt \<Rightarrow> json \<Rightarrow> json" where
  "or_json a b = (case a of Val j \<Rightarrow> (if truthy_json a then j else b) | _ \<Rightarrow> b)"

text \<open>\<^verbatim>\<open>a || b\<close>, with both sides request data.\<close>

definition or_else :: "string jsopt \<Rightarrow> string jsopt \<Rightarrow> string jsopt" where
  "or_else a b = (if truthy_string a then a else b)"

text \<open>
  The value the SQLite binding gives a statement parameter: \<^verbatim>\<open>null\<close> binds NULL and
  \<^verbatim>\<open>undefined\<close> leaves the parameter unbound, which SQLite reads as NULL.
\<close>

fun bind :: "'a jsopt \<Rightarrow> 'a option" where
  "bind (Val v) = Some v"
| "bind _ = None"

subsection \<open>\<^verbatim>\<open>parseInt\<close>\<close>

text \<open>
  A JavaScript string is the list of its UTF-16 code units; \<open>ascii\<close> gives the code
  units of a literal.
\<close>

type_synonym js_string = "nat list"

definition ascii :: "string \<Rightarrow> js_string" where
  "ascii s = map of_char s"

text \<open>
  The white space and line terminators that \<^verbatim>\<open>parseInt\<close> skips: TAB, LF, VT, FF, CR,
  SP, NBSP, the other space separators of Unicode, LS, PS and the byte order mark.
\<close>

definition is_space :: "nat \<Rightarrow> bool" where
  "is_space c =
     (c \<in> {9, 10, 11, 12, 13, 32, 160, 5760, 8232, 8233, 8239, 8287, 12288, 65279}
      \<or> (8192 \<le> c \<and> c \<le> 8202))"

definition digit_val :: "nat \<Rightarrow> nat \<Rightarrow> nat option" where
  "digit_val radix c =
     (let v = (if 48 \<le> c \<and> c \<le> 57 then Some (c - 48)
               else if 97 \<le> c \<and> c \<le> 122 then Some (c - 87)
               else if 65 \<le> c \<and> c \<le> 90 then Some (c - 55)
               else None)
      in case v of Some d \<Rightarrow> (if d < radix then Some d else None) | None \<Rightarrow> None)"

definition digits_value :: "nat \<Rightarrow> js_string \<Rightarrow> int option" where
  "digits_value radix s =
     (let ds = takeWhile (\<lambda>c. digit_val radix c \<noteq> None) s
      in if ds = [] then None
         else Some (foldl (\<lambda>a c. a * int radix + int (the (digit_val radix c))) 0 ds))"

definition unsigned_value :: "js_string \<Rightarrow> int option" where
  "unsigned_value s =
     (if take 2 s = [48, 120] \<or> take 2 s = [48, 88] then digits_value 16 (drop 2 s)
      else digits_value 10 s)"

fun signed_value :: "js_string \<Rightarrow> int option" where
  "signed_value [] = None"
| "signed_value (c # cs) =
     (if c = 45 then map_option uminus (unsigned_value cs)
      else if c = 43 then unsigned_value cs
      else unsigned_value (c # cs))"

text \<open>
  The Number value of an integer: the nearest double, ties to the even mantissa. Below
  \<open>2 ^ 53\<close> every integer is a double. (An integer beyond the range of doubles becomes
  an infinity; here it stays a large integer, which no use below tells apart.)
\<close>

definition round_to :: "int \<Rightarrow> int \<Rightarrow> int" where
  "round_to u a =
     (let q = a div u; r = a mod u
      in if u < 2 * r \<or> (u = 2 * r \<and> odd q) then (q + 1) * u else q * u)"

definition to_double :: "int \<Rightarrow> int" where
  "to_double n =
     (if \<bar>n\<bar> < 9007199254740992 then n
      else sgn n * round_to (2 ^ nat (bitlen \<bar>n\<bar> - 53)) \<bar>n\<bar>)"

text \<open>
  \<^verbatim>\<open>parseInt(s)\<close> skips leading white space, reads a sign, reads the prefix \<^verbatim>\<open>0x\<close> or
  \<^verbatim>\<open>0X\<close> as radix 16, and converts the longest prefix of digits; \<open>None\<close> is NaN. An
  absent query parameter is \<^verbatim>\<open>undefined\<close>, which \<^verbatim>\<open>parseInt\<close> reads as the string
  \<^verbatim>\<open>"undefined"\<close>.
\<close>

definition parseInt :: "js_string option \<Rightarrow> int option" where
  "parseInt q =
     (case q of
        None \<Rightarrow> None
      | Some s \<Rightarrow> map_option to_double (signed_value (dropWhile is_space s)))"

text \<open>\<^verbatim>\<open>parseInt(q) || d\<close>: NaN and 0 are falsy.\<close>

definition or_default :: "int option \<Rightarrow> int \<Rightarrow> int" where
  "or_default n d = (case n of None \<Rightarrow> d | Some v \<Rightarrow> (if v = 0 then d else v))"

subsection \<open>The table and the connection\<close>

text \<open>
  One row of \<^verbatim>\<open>tournament_scores\<close>. The columns declared \<^verbatim>\<open>NOT NULL\<close> hold values, the
  others options; \<open>rowid\<close> is the column \<^verbatim>\<open>id INTEGER PRIMARY KEY AUTOINCREMENT\<close> and
  \<open>level_breakdown\<close> holds the JSON text, written as the value it denotes.
\<close>

record score_row =
  rowid :: nat
  registration_number :: string
  student_name :: "string option"
  final_score :: int
  levels_completed :: int
  accuracy_rate :: rat
  time_remaining :: int
  level_breakdown :: "json option"
  completion_time :: nat
  ip_address :: "string option"
  session_id :: "string option"

text \<open>
  The database as the one connection \<^verbatim>\<open>db\<close> sees it: the rows, the largest rowid the
  table ever held (\<^verbatim>\<open>sqlite_sequence\<close>, kept by \<^verbatim>\<open>AUTOINCREMENT\<close>) and the rowid of the
  connection's last successful insert, which the binding reports as \<^verbatim>\<open>this.lastID\<close>.
\<close>

record db =
  rows :: "score_row list"
  sqlite_sequence :: nat
  last_insert_rowid :: nat

definition initial_db :: db where
  "initial_db = \<lparr>rows = [], sqlite_sequence = 0, last_insert_rowid = 0\<rparr>"

definition lookup :: "string \<Rightarrow> db \<Rightarrow> score_row option" where
  "lookup k d = find (\<lambda>r. registration_number r = k) (rows d)"

text \<open>The constraint \<^verbatim>\<open>registration_number TEXT UNIQUE\<close>.\<close>

definition unique_keys :: "db \<Rightarrow> bool" where
  "unique_keys d = distinct (map registration_number (rows d))"

datatype error = InvalidArgument | NotFound | Unauthorized | StorageError

fun http_status :: "error \<Rightarrow> nat" where
  "http_status InvalidArgument = 400"
| "http_status Unauthorized = 403"
| "http_status NotFound = 404"
| "http_status StorageError = 500"

subsection \<open>POST /api/submit-score\<close>

record submission =
  registrationNumber :: "string jsopt"
  studentName :: "string jsopt"
  finalScore :: "int jsopt"
  levelsCompleted :: "int jsopt"
  accuracyRate :: "rat jsopt"
  timeRemaining :: "int jsopt"
  levelBreakdown :: "json jsopt"
  sessionId :: "string jsopt"
  ip :: "string jsopt"
  remoteAddress :: "string jsopt"

text \<open>The nine parameters of the statement, in the order of the \<^verbatim>\<open>VALUES\<close> list.\<close>

record upsert_params =
  p_registration_number :: "string option"
  p_student_name :: "string option"
  p_final_score :: "int option"
  p_levels_completed :: "int option"
  p_accuracy_rate :: "rat option"
  p_time_remaining :: "int option"
  p_level_breakdown :: "json option"
  p_ip_address :: "string option"
  p_session_id :: "string option"

definition submit_params :: "submission \<Rightarrow> upsert_params" where
  "submit_params req =
     \<lparr>p_registration_number = bind (registrationNumber req),
      p_student_name = Some (or_string (studentName req) ''Anonymous''),
      p_final_score = bind (finalScore req),
      p_levels_completed = Some (or_number (levelsCompleted req) 0),
      p_accuracy_rate = Some (or_number (accuracyRate req) 0),
      p_time_remaining = Some (or_number (timeRemaining req) 0),
      p_level_breakdown = Some (or_json (levelBreakdown req) (JObject [])),
      p_ip_address = bind (or_else (ip req) (remoteAddress req)),
      p_session_id = bind (sessionId req)\<rparr>"

text \<open>
  The row the \<^verbatim>\<open>INSERT\<close> proposes, which the \<^verbatim>\<open>DO UPDATE\<close> clause calls \<^verbatim>\<open>excluded\<close>.
  SQLite checks the \<^verbatim>\<open>NOT NULL\<close> constraints on it before it looks for a uniqueness
  conflict; \<open>None\<close> is the constraint failure, which aborts the statement.
\<close>

definition excluded_row :: "nat \<Rightarrow> nat \<Rightarrow> upsert_params \<Rightarrow> score_row option" where
  "excluded_row now i p =
     (case (p_registration_number p, p_final_score p, p_levels_completed p,
            p_accuracy_rate p, p_time_remaining p) of
        (Some k, Some s, Some l, Some a, Some t) \<Rightarrow>
          Some \<lparr>rowid = i, registration_number = k, student_name = p_student_name p,
                final_score = s, levels_completed = l, accuracy_rate = a,
                time_remaining = t, level_breakdown = p_level_breakdown p,
                completion_time = now, ip_address = p_ip_address p,
                session_id = p_session_id p\<rparr>
      | _ \<Rightarrow> None)"

text \<open>The \<^verbatim>\<open>DO UPDATE SET\<close> clause, applied to the row in conflict.\<close>

definition do_update :: "score_row \<Rightarrow> score_row \<Rightarrow> score_row" where
  "do_update excluded r =
     r\<lparr>student_name := student_name excluded,
       final_score := (if final_score excluded > final_score r then final_score excluded
                       else final_score r),
       levels_completed := levels_completed excluded,
       accuracy_rate := accuracy_rate excluded,
       time_remaining := time_remaining excluded,
       level_breakdown := level_breakdown excluded,
       completion_time := completion_time excluded,
       ip_address := ip_address excluded,
       session_id := session_id excluded\<rparr>"

definition next_rowid :: "db \<Rightarrow> nat" where
  "next_rowid d = Suc (max (sqlite_sequence d) (fold max (map rowid (rows d)) 0))"

text \<open>
  The statement draws the next \<^verbatim>\<open>AUTOINCREMENT\<close> rowid for the proposed row before it
  checks the constraints, and records it in \<^verbatim>\<open>sqlite_sequence\<close> when it ends, also when
  the row was merged into the row in conflict. Only an insert sets the rowid of the
  last insert.
\<close>

definition upsertQuery :: "nat \<Rightarrow> upsert_params \<Rightarrow> db \<Rightarrow> db option" where
  "upsertQuery now p d =
     (case excluded_row now (next_rowid d) p of
        None \<Rightarrow> None
      | Some excluded \<Rightarrow>
          (if registration_number excluded \<in> registration_number ` set (rows d)
           then Some (d\<lparr>rows := map (\<lambda>r. if registration_number r = registration_number excluded
                                          then do_update excluded r else r) (rows d),
                        sqlite_sequence := rowid excluded\<rparr>)
           else Some (d\<lparr>rows := rows d @ [excluded],
                        sqlite_sequence := rowid excluded,
                        last_insert_rowid := rowid excluded\<rparr>)))"

record reply =
  success :: bool
  message :: string

record submit_reply = reply +
  scoreId :: nat
  rank :: "nat option"

definition submit_score :: "nat \<Rightarrow> submission \<Rightarrow> db \<Rightarrow> (error + submit_reply) \<times> db" where
  "submit_score now req d =
     (if \<not> truthy_string (registrationNumber req) \<or> finalScore req = Undefined
      then (Inl InvalidArgument, d)
      else (case upsertQuery now (submit_params req) d of
              None \<Rightarrow> (Inl StorageError, d)
            | Some d' \<Rightarrow>
                (Inr \<lparr>success = True, message = ''Score submitted successfully!'',
                      scoreId = last_insert_rowid d', rank = None\<rparr>, d')))"

text \<open>A sequence of calls, each with its clock reading; the replies are kept in order.\<close>

fun submit_all :: "(nat \<times> submission) list \<Rightarrow> db \<Rightarrow> (error + submit_reply) list \<times> db" where
  "submit_all [] d = ([], d)"
| "submit_all ((now, req) # calls) d =
     (let (r, d') = submit_score now req d;
          (rs, d'') = submit_all calls d'
      in (r # rs, d''))"

subsection \<open>GET /api/leaderboard\<close>

text \<open>\<^verbatim>\<open>ORDER BY final_score DESC, completion_time ASC\<close>, as a lexicographic key.\<close>

definition order_key :: "score_row \<Rightarrow> int \<times> nat" where
  "order_key r = (- final_score r, completion_time r)"

text \<open>\<^verbatim>\<open>ROW_NUMBER() OVER (ORDER BY ...)\<close> over the whole table.\<close>

definition ranked_scores :: "db \<Rightarrow> (nat \<times> score_row) list" where
  "ranked_scores d = enumerate 1 (sort_key order_key (rows d))"

text \<open>
  \<^verbatim>\<open>LIMIT ? OFFSET ?\<close>: SQLite reads a negative limit as no limit and a negative
  offset as 0.
\<close>

definition limit_offset :: "int \<Rightarrow> int \<Rightarrow> 'a list \<Rightarrow> 'a list" where
  "limit_offset lmt off xs =
     (let ys = drop (nat off) xs in if lmt < 0 then ys else take (nat lmt) ys)"

text \<open>
  The binding passes a number within 32 bits as an integer and any other number as a
  double. \<^verbatim>\<open>LIMIT\<close> and \<^verbatim>\<open>OFFSET\<close> take a double that is an integer strictly between
  the least and the greatest 64-bit integer; any other is a datatype mismatch, which
  fails the statement.
\<close>

definition sql_integer :: "int \<Rightarrow> bool" where
  "sql_integer v = (- 9223372036854775808 < v \<and> v < 9223372036854775807)"

definition leaderboardQuery :: "int \<Rightarrow> int \<Rightarrow> db \<Rightarrow> (nat \<times> score_row) list option" where
  "leaderboardQuery lmt off d =
     (if sql_integer lmt \<and> sql_integer off then Some (limit_offset lmt off (ranked_scores d))
      else None)"

text \<open>
  The columns a ranked query selects: the rank, \<^verbatim>\<open>registration_number\<close>,
  \<^verbatim>\<open>student_name\<close>, \<^verbatim>\<open>final_score\<close>, \<^verbatim>\<open>levels_completed\<close>, \<^verbatim>\<open>accuracy_rate\<close>,
  \<^verbatim>\<open>time_remaining\<close> and \<^verbatim>\<open>completion_time\<close>. The leaderboard selects
  \<^verbatim>\<open>level_breakdown\<close> too. The columns \<^verbatim>\<open>id\<close>, \<^verbatim>\<open>ip_address\<close> and \<^verbatim>\<open>session_id\<close> are in
  neither reply.
\<close>

record ranked_row =
  row_rank :: nat
  row_registration_number :: string
  row_student_name :: "string option"
  row_final_score :: int
  row_levels_completed :: int
  row_accuracy_rate :: rat
  row_time_remaining :: int
  row_completion_time :: nat

record leaderboard_row = ranked_row +
  row_level_breakdown :: json

text \<open>
  An entry of the leaderboard: the selected columns, with
  \<^verbatim>\<open>JSON.parse(row.level_breakdown || '{}')\<close> in place of the JSON text, which reads a
  NULL as the empty object.
\<close>

definition leaderboard_entry :: "nat \<times> score_row \<Rightarrow> leaderboard_row" where
  "leaderboard_entry e =
     (case e of (n, r) \<Rightarrow>
        \<lparr>row_rank = n, row_registration_number = registration_number r,
         row_student_name = student_name r, row_final_score = final_score r,
         row_levels_completed = levels_completed r, row_accuracy_rate = accuracy_rate r,
         row_time_remaining = time_remaining r, row_completion_time = completion_time r,
         row_level_breakdown =
           (case level_breakdown r of None \<Rightarrow> JObject [] | Some j \<Rightarrow> j)\<rparr>)"

record leaderboard_reply =
  lb_success :: bool
  leaderboard :: "leaderboard_row list"
  total :: nat

definition get_leaderboard ::
  "js_string option \<Rightarrow> js_string option \<Rightarrow> db \<Rightarrow> error + leaderboard_reply" where
  "get_leaderboard qlimit qoffset d =
     (let limit = or_default (parseInt qlimit) 100;
          offset = or_default (parseInt qoffset) 0
      in case leaderboardQuery limit offset d of
           None \<Rightarrow> Inl StorageError
         | Some rs \<Rightarrow>
             (let leaderboard = map leaderboard_entry rs
              in Inr \<lparr>lb_success = True, leaderboard = leaderboard,
                      total = length leaderboard\<rparr>))"

subsection \<open>GET /api/stats\<close>

record stats_row =
  total_participants :: nat
  highest_score :: "int option"
  average_score :: "rat option"
  average_levels_completed :: "rat option"
  average_accuracy :: "rat option"

text \<open>The aggregates \<^verbatim>\<open>MAX\<close> and \<^verbatim>\<open>AVG\<close> are NULL over no rows.\<close>

definition sql_max :: "int list \<Rightarrow> int option" where
  "sql_max xs = (case xs of [] \<Rightarrow> None | x # ys \<Rightarrow> Some (fold max ys x))"

definition sql_avg :: "rat list \<Rightarrow> rat option" where
  "sql_avg xs = (if xs = [] then None else Some (sum_list xs / of_nat (length xs)))"

definition statsQuery :: "db \<Rightarrow> stats_row" where
  "statsQuery d =
     \<lparr>total_participants = length (rows d),
      highest_score = sql_max (map final_score (rows d)),
      average_score = sql_avg (map (\<lambda>r. of_int (final_score r)) (rows d)),
      average_levels_completed = sql_avg (map (\<lambda>r. of_int (levels_completed r)) (rows d)),
      average_accuracy = sql_avg (map accuracy_rate (rows d))\<rparr>"

record stats_reply =
  st_success :: bool
  stats :: stats_row

definition get_stats :: "db \<Rightarrow> stats_reply" where
  "get_stats d = \<lparr>st_success = True, stats = statsQuery d\<rparr>"

subsection \<open>GET /api/rank/:registrationNumber\<close>

text \<open>
  The ranked subquery filtered by the key; \<^verbatim>\<open>db.get\<close> hands over the first row of the
  result, or \<^verbatim>\<open>undefined\<close> when there is none.
\<close>

definition select_ranked :: "nat \<times> score_row \<Rightarrow> ranked_row" where
  "select_ranked e =
     (case e of (n, r) \<Rightarrow>
        \<lparr>row_rank = n, row_registration_number = registration_number r,
         row_student_name = student_name r, row_final_score = final_score r,
         row_levels_completed = levels_completed r, row_accuracy_rate = accuracy_rate r,
         row_time_remaining = time_remaining r, row_completion_time = completion_time r\<rparr>)"

definition rankQuery :: "string \<Rightarrow> db \<Rightarrow> ranked_row option" where
  "rankQuery k d =
     map_option select_ranked (find (\<lambda>(n, r). registration_number r = k) (ranked_scores d))"

record rank_reply =
  rk_success :: bool
  student :: ranked_row

definition get_rank :: "string \<Rightarrow> db \<Rightarrow> error + rank_reply" where
  "get_rank k d =
     (case rankQuery k d of
        None \<Rightarrow> Inl NotFound
      | Some row \<Rightarrow> Inr \<lparr>rk_success = True, student = row\<rparr>)"

subsection \<open>DELETE /api/admin/clear-all\<close>

text \<open>\<^verbatim>\<open>DELETE FROM tournament_scores\<close> keeps \<^verbatim>\<open>sqlite_sequence\<close>.\<close>

definition clearQuery :: "db \<Rightarrow> db" where
  "clearQuery d = d\<lparr>rows := []\<rparr>"

record clear_reply = reply +
  timestamp :: string

text \<open>
  \<open>key\<close> is \<^verbatim>\<open>req.query.key\<close>, \<open>header\<close> is \<^verbatim>\<open>req.headers['admin-key']\<close> and \<open>iso_now\<close>
  is \<^verbatim>\<open>new Date().toISOString()\<close>.
\<close>

definition clear_all :: "string jsopt \<Rightarrow> string jsopt \<Rightarrow> string \<Rightarrow> db \<Rightarrow> (error + clear_reply) \<times> db" where
  "clear_all key header iso_now d =
     (if or_else key header \<noteq> Val ''IEEE2025ADMIN'' then (Inl Unauthorized, d)
      else (Inr \<lparr>success = True,
                 message = ''All tournament data has been cleared successfully.'',
                 timestamp = iso_now\<rparr>, clearQuery d))"


subsection \<open>Example requests\<close>

text \<open>A submission that carries a key, a score and the number of levels only.\<close>

definition attempt :: "string \<Rightarrow> int jsopt \<Rightarrow> int jsopt \<Rightarrow> submission" where
  "attempt k s l =
     \<lparr>registrationNumber = Val k, studentName = Undefined, finalScore = s,
      levelsCompleted = l, accuracyRate = Undefined, timeRemaining = Undefined,
      levelBreakdown = Undefined, sessionId = Undefined, ip = Undefined,
      remoteAddress = Undefined\<rparr>"

section \<open>Properties\<close>

subsection \<open>Submissions\<close>


lemma do_update_key [simp]: "registration_number (do_update ex r) = registration_number r"
  by (simp add: do_update_def)

lemma do_update_rowid [simp]: "rowid (do_update ex r) = rowid r"
  by (simp add: do_update_def)

lemma excluded_row_SomeD:
  "excluded_row now i p = Some ex \<Longrightarrow>
     p_registration_number p = Some (registration_number ex) \<and>
     p_final_score p = Some (final_score ex) \<and>
     p_levels_completed p = Some (levels_completed ex) \<and>
     p_accuracy_rate p = Some (accuracy_rate ex) \<and>
     p_time_remaining p = Some (time_remaining ex) \<and>
     level_breakdown ex = p_level_breakdown p \<and>
     student_name ex = p_student_name p \<and>
     ip_address ex = p_ip_address p \<and>
     session_id ex = p_session_id p \<and>
     completion_time ex = now \<and> rowid ex = i"
  by (auto simp: excluded_row_def split: option.splits)

lemma find_map_update:
  "find (\<lambda>r. registration_number r = k)
        (map (\<lambda>r. if registration_number r = k' then do_update ex r else r) xs) =
   (if k = k' then map_option (do_update ex) (find (\<lambda>r. registration_number r = k) xs)
    else find (\<lambda>r. registration_number r = k) xs)"
  by (induction xs) auto

lemma find_append_new:
  "find P (xs @ [x]) = (case find P xs of Some y \<Rightarrow> Some y | None \<Rightarrow> (if P x then Some x else None))"
  by (induction xs) auto

lemma lookup_None_iff: "lookup k d = None \<longleftrightarrow> k \<notin> registration_number ` set (rows d)"
  by (auto simp: lookup_def find_None_iff)

lemma lookup_SomeD: "lookup k d = Some r \<Longrightarrow> r \<in> set (rows d) \<and> registration_number r = k"
  by (auto simp: lookup_def find_Some_iff)

lemma lookup_upsert:
  assumes "upsertQuery now p d = Some d'"
  shows "\<exists>ex. excluded_row now (next_rowid d) p = Some ex \<and>
           (\<forall>k. lookup k d' =
              (if k = registration_number ex
               then Some (case lookup k d of None \<Rightarrow> ex | Some r \<Rightarrow> do_update ex r)
               else lookup k d))"
proof -
  from assms obtain ex where ex: "excluded_row now (next_rowid d) p = Some ex"
    by (auto simp: upsertQuery_def split: option.splits)
  show ?thesis
  proof (cases "registration_number ex \<in> registration_number ` set (rows d)")
    case True
    with assms ex have d': "d' = d\<lparr>rows := map (\<lambda>r. if registration_number r = registration_number ex
                                          then do_update ex r else r) (rows d),
                             sqlite_sequence := rowid ex\<rparr>"
      by (simp add: upsertQuery_def)
    from True obtain r where "lookup (registration_number ex) d = Some r"
      using lookup_None_iff by (cases "lookup (registration_number ex) d") auto
    then show ?thesis using ex d'
      by (simp add: lookup_def find_map_update)
  next
    case False
    with assms ex have d': "d' = d\<lparr>rows := rows d @ [ex], sqlite_sequence := rowid ex,
                        last_insert_rowid := rowid ex\<rparr>"
      by (simp add: upsertQuery_def)
    from False have "lookup (registration_number ex) d = None"
      by (simp add: lookup_None_iff)
    then show ?thesis using ex d'
      by (simp add: lookup_def find_append_new split: option.splits)
  qed
qed


lemma excluded_submit:
  "registrationNumber req = Val k \<Longrightarrow> finalScore req = Val s \<Longrightarrow>
   excluded_row now i (submit_params req) =
     Some \<lparr>rowid = i, registration_number = k,
           student_name = Some (or_string (studentName req) ''Anonymous''),
           final_score = s,
           levels_completed = or_number (levelsCompleted req) 0,
           accuracy_rate = or_number (accuracyRate req) 0,
           time_remaining = or_number (timeRemaining req) 0,
           level_breakdown = Some (or_json (levelBreakdown req) (JObject [])),
           completion_time = now,
           ip_address = bind (or_else (ip req) (remoteAddress req)),
           session_id = bind (sessionId req)\<rparr>"
  by (simp add: excluded_row_def submit_params_def)

lemma excluded_submit_null:
  "finalScore req = Null \<Longrightarrow> excluded_row now i (submit_params req) = None"
  by (simp add: excluded_row_def submit_params_def split: option.splits)

lemma truthy_string_iff: "truthy_string x \<longleftrightarrow> (\<exists>k. x = Val k \<and> k \<noteq> [])"
  by (cases x) auto

lemma falsy_string_iff: "\<not> truthy_string x \<longleftrightarrow> x \<in> {Undefined, Null, Val []}"
  by (cases x) auto

lemma upsertQuery_None_iff:
  "upsertQuery now p d = None \<longleftrightarrow> excluded_row now (next_rowid d) p = None"
  by (simp add: upsertQuery_def split: option.splits)

lemma submit_score_null:
  "truthy_string (registrationNumber req) \<Longrightarrow> finalScore req = Null \<Longrightarrow>
   submit_score now req d = (Inl StorageError, d)"
  by (simp add: submit_score_def upsertQuery_def excluded_submit_null)

lemma submit_score_invalid_iff:
  "fst (submit_score now req d) = Inl InvalidArgument \<longleftrightarrow>
   \<not> truthy_string (registrationNumber req) \<or> finalScore req = Undefined"
  by (auto simp: submit_score_def split: option.splits)

lemma submit_score_invalid_unchanged:
  "fst (submit_score now req d) = Inl InvalidArgument \<Longrightarrow> snd (submit_score now req d) = d"
  by (auto simp: submit_score_def split: option.splits if_splits)

lemma submit_score_ok:
  assumes "registrationNumber req = Val k" "k \<noteq> []" "finalScore req = Val s"
  shows "\<exists>d' ex. submit_score now req d =
           (Inr \<lparr>success = True, message = ''Score submitted successfully!'',
                 scoreId = last_insert_rowid d', rank = None\<rparr>, d') \<and>
           upsertQuery now (submit_params req) d = Some d' \<and>
           excluded_row now (next_rowid d) (submit_params req) = Some ex \<and>
           (\<forall>k'. lookup k' d' =
              (if k' = k then Some (case lookup k d of None \<Rightarrow> ex | Some r \<Rightarrow> do_update ex r)
               else lookup k' d))"
proof -
  from assms have ex: "\<exists>ex. excluded_row now (next_rowid d) (submit_params req) = Some ex \<and> registration_number ex = k"
    by (simp add: excluded_submit)
  then obtain d' where d': "upsertQuery now (submit_params req) d = Some d'"
    by (cases "upsertQuery now (submit_params req) d") (auto simp: upsertQuery_None_iff)
  from lookup_upsert [OF d'] ex d' assms show ?thesis
    by (auto simp: submit_score_def)
qed

lemma submit_score_Inr_D:
  assumes "submit_score now req d = (Inr rep, d')"
  shows "\<exists>k s. registrationNumber req = Val k \<and> k \<noteq> [] \<and> finalScore req = Val s"
proof -
  from assms have t: "truthy_string (registrationNumber req)" and u: "finalScore req \<noteq> Undefined"
    by (auto simp: submit_score_def split: if_splits)
  from assms t have "finalScore req \<noteq> Null"
    using submit_score_null [of req now d] by auto
  with t u show ?thesis
    by (cases "finalScore req") (auto simp: truthy_string_iff)
qed


lemma best_submit:
  assumes "registrationNumber req = Val k" "k \<noteq> []" "finalScore req = Val s"
  shows "map_option final_score (lookup k (snd (submit_score now req d))) =
         Some (case map_option final_score (lookup k d) of None \<Rightarrow> s | Some b \<Rightarrow> max b s)"
proof -
  from submit_score_ok [OF assms, of now d] obtain d' ex where
    s: "submit_score now req d =
           (Inr \<lparr>success = True, message = ''Score submitted successfully!'',
                 scoreId = last_insert_rowid d', rank = None\<rparr>, d')"
    and ex: "excluded_row now (next_rowid d) (submit_params req) = Some ex"
    and l: "lookup k d' = Some (case lookup k d of None \<Rightarrow> ex | Some r \<Rightarrow> do_update ex r)"
    by auto
  from excluded_row_SomeD [OF ex] assms have "final_score ex = s"
    by (simp add: submit_params_def)
  then show ?thesis using s l
    by (auto simp: do_update_def split: option.splits)
qed


lemma best_submit_all:
  assumes "k \<noteq> []"
  shows "\<forall>c \<in> set calls. registrationNumber (snd c) = Val k \<Longrightarrow>
         map (\<lambda>c. finalScore (snd c)) calls = map Val ss \<Longrightarrow>
         map_option final_score (lookup k (snd (submit_all calls d))) =
           (case map_option final_score (lookup k d) of
              None \<Rightarrow> (if ss = [] then None else Some (Max (set ss)))
            | Some b \<Rightarrow> Some (Max (insert b (set ss))))"
proof (induction calls arbitrary: d ss)
  case Nil
  then show ?case by (simp split: option.splits)
next
  case (Cons c calls)
  obtain now req where c: "c = (now, req)" by (cases c)
  from Cons.prems obtain s ss' where ss: "ss = s # ss'" and s: "finalScore req = Val s"
    and ss': "map (\<lambda>c. finalScore (snd c)) calls = map Val ss'"
    by (cases ss) (auto simp: c)
  from Cons.prems have k: "registrationNumber req = Val k"
    and ks: "\<forall>c \<in> set calls. registrationNumber (snd c) = Val k"
    by (auto simp: c)
  let ?d1 = "snd (submit_score now req d)"
  have b1: "map_option final_score (lookup k ?d1) =
         Some (case map_option final_score (lookup k d) of None \<Rightarrow> s | Some b \<Rightarrow> max b s)"
    by (rule best_submit [OF k assms s])
  have step: "snd (submit_all (c # calls) d) = snd (submit_all calls ?d1)"
    by (simp add: c split: prod.splits)
  have fin: "finite (set ss')" by simp
  show ?case
  proof (cases "ss' = []")
    case True
    then show ?thesis
      unfolding step Cons.IH [OF ks ss'] b1 ss
      by (simp add: max.commute split: option.splits)
  next
    case False
    then have ne: "set ss' \<noteq> {}" by simp
    show ?thesis
      unfolding step Cons.IH [OF ks ss'] b1 ss
      using fin ne by (auto simp: max.commute max.left_commute insert_commute split: option.splits)
  qed
qed

lemma submit_all_succeeds:
  assumes "k \<noteq> []"
  shows "\<forall>c \<in> set calls. registrationNumber (snd c) = Val k \<Longrightarrow>
         map (\<lambda>c. finalScore (snd c)) calls = map Val ss \<Longrightarrow>
         \<forall>r \<in> set (fst (submit_all calls d)). \<exists>rep. r = Inr rep"
proof (induction calls arbitrary: d ss)
  case Nil
  then show ?case by simp
next
  case (Cons c calls)
  obtain now req where c: "c = (now, req)" by (cases c)
  from Cons.prems obtain s ss' where ss: "ss = s # ss'" and s: "finalScore req = Val s"
    and ss': "map (\<lambda>c. finalScore (snd c)) calls = map Val ss'"
    by (cases ss) (auto simp: c)
  from Cons.prems have k: "registrationNumber req = Val k"
    and ks: "\<forall>c \<in> set calls. registrationNumber (snd c) = Val k"
    by (auto simp: c)
  from submit_score_ok [OF k assms s, of now d] obtain rep d' where
    "submit_score now req d = (Inr rep, d')" by blast
  then show ?case using Cons.IH [OF ks ss', of d']
    by (auto simp: c split: prod.splits)
qed


lemma Val_scores_perm:
  assumes "mset xs = mset (map Val ss)"
  shows "\<exists>ss'. xs = map Val ss' \<and> set ss' = set ss"
proof -
  let ?ss' = "map (\<lambda>x. the (bind x)) xs"
  from assms have "set xs = Val ` set ss"
    by (metis mset_eq_setD set_map)
  then have "\<forall>x \<in> set xs. Val (the (bind x)) = x" by auto
  then have eq: "xs = map Val ?ss'" by (simp add: map_idI)
  with assms have "mset (map Val ?ss') = mset (map Val ss)" by simp
  then have "Val ` set ?ss' = Val ` set ss"
    by (metis mset_eq_setD set_map)
  then have "set ?ss' = set ss"
    by (simp add: inj_image_eq_iff inj_def)
  with eq show ?thesis by blast
qed

text \<open>
  Claim C1. A sequence of Submit calls for one key \<open>k\<close> that carry the scores \<open>ss\<close>
  succeeds call by call, and afterwards the stored \<open>final_score\<close> of \<open>k\<close> is the
  maximum of \<open>ss\<close> when \<open>k\<close> had no record before (the maximum of \<open>ss\<close> and the
  stored score when it had one). Any other arrival order of the same scores gives the
  same stored score, and no single successful Submit lowers the stored score.
\<close>

theorem best_score_is_max:
  assumes "k \<noteq> []"
    and "\<forall>c \<in> set calls. registrationNumber (snd c) = Val k"
    and "map (\<lambda>c. finalScore (snd c)) calls = map Val ss"
    and "ss \<noteq> []"
  shows "(\<forall>r \<in> set (fst (submit_all calls d)). \<exists>rep. r = Inr rep) \<and>
    (lookup k d = None \<longrightarrow>
       map_option final_score (lookup k (snd (submit_all calls d))) = Some (Max (set ss))) \<and>
    (\<forall>r0. lookup k d = Some r0 \<longrightarrow>
       map_option final_score (lookup k (snd (submit_all calls d))) =
         Some (Max (insert (final_score r0) (set ss)))) \<and>
    (\<forall>calls'. (\<forall>c \<in> set calls'. registrationNumber (snd c) = Val k) \<and>
         mset (map (\<lambda>c. finalScore (snd c)) calls') = mset (map (\<lambda>c. finalScore (snd c)) calls) \<longrightarrow>
       map_option final_score (lookup k (snd (submit_all calls' d))) =
         map_option final_score (lookup k (snd (submit_all calls d)))) \<and>
    (\<forall>now req rep d' r0.
       registrationNumber req = Val k \<and> lookup k d = Some r0 \<and>
       submit_score now req d = (Inr rep, d') \<longrightarrow>
       (\<exists>r1. lookup k d' = Some r1 \<and> final_score r0 \<le> final_score r1))"
proof (intro conjI allI impI)
  show "\<forall>r \<in> set (fst (submit_all calls d)). \<exists>rep. r = Inr rep"
    by (rule submit_all_succeeds [OF assms(1-3)])
next
  assume "lookup k d = None"
  then show "map_option final_score (lookup k (snd (submit_all calls d))) = Some (Max (set ss))"
    using best_submit_all [OF assms(1-3), of d] assms(4) by simp
next
  fix r0 assume "lookup k d = Some r0"
  then show "map_option final_score (lookup k (snd (submit_all calls d))) =
         Some (Max (insert (final_score r0) (set ss)))"
    using best_submit_all [OF assms(1-3), of d] by simp
next
  fix calls' :: "(nat \<times> submission) list"
  assume a: "(\<forall>c \<in> set calls'. registrationNumber (snd c) = Val k) \<and>
         mset (map (\<lambda>c. finalScore (snd c)) calls') = mset (map (\<lambda>c. finalScore (snd c)) calls)"
  then have "mset (map (\<lambda>c. finalScore (snd c)) calls') = mset (map Val ss)"
    using assms(3) by simp
  from Val_scores_perm [OF this] obtain ss' where
    ss': "map (\<lambda>c. finalScore (snd c)) calls' = map Val ss'" and set: "set ss' = set ss"
    by blast
  from set assms(4) have ne: "ss' \<noteq> []" by auto
  from a have ks: "\<forall>c \<in> set calls'. registrationNumber (snd c) = Val k" by simp
  show "map_option final_score (lookup k (snd (submit_all calls' d))) =
         map_option final_score (lookup k (snd (submit_all calls d)))"
    unfolding best_submit_all [OF assms(1) ks ss'] best_submit_all [OF assms(1-3)]
    using set ne assms(4) by (simp split: option.splits)
next
  fix now and req :: submission and rep d' r0
  assume a: "registrationNumber req = Val k \<and> lookup k d = Some r0 \<and>
       submit_score now req d = (Inr rep, d')"
  then obtain s where s: "finalScore req = Val s"
    using submit_score_Inr_D by blast
  from a have k: "registrationNumber req = Val k" by simp
  from best_submit [OF k assms(1) s, of now d] a
  show "\<exists>r1. lookup k d' = Some r1 \<and> final_score r0 \<le> final_score r1"
    by (cases "lookup k d'") auto
qed

theorem best_score_is_max_witness:
  "map_option final_score
     (lookup ''A1'' (snd (submit_all [(1, attempt ''A1'' (Val 300) Undefined),
                                      (2, attempt ''A1'' (Val 500) Undefined),
                                      (3, attempt ''A1'' (Val 400) Undefined)] initial_db))) = Some 500"
  using best_score_is_max [of "''A1''" "[(1, attempt ''A1'' (Val 300) Undefined),
                                      (2, attempt ''A1'' (Val 500) Undefined),
                                      (3, attempt ''A1'' (Val 400) Undefined)]" "[300, 500, 400]" initial_db]
  by (simp add: attempt_def lookup_def initial_db_def)


lemma or_number_Val [simp]: "or_number (Val v) 0 = v"
  by (simp add: or_number_def)

lemma or_json_JObject [simp]: "or_json (Val (JObject m)) b = JObject m"
  by (simp add: or_json_def)

lemma submit_score_fst_snd:
  "fst (submit_score now req d) = Inr rep \<Longrightarrow>
   submit_score now req d = (Inr rep, snd (submit_score now req d))"
  by (metis prod.collapse)

text \<open>
  Claim C2. After two successful Submit calls for one key, the stored
  \<open>levels_completed\<close>, \<open>accuracy_rate\<close>, \<open>time_remaining\<close> and \<open>level_breakdown\<close> are
  the parameters bound from the second call, which are the values the second request
  carries; this does not depend on the scores, while the stored \<open>final_score\<close> is the
  larger of the two scores when the key was new.
\<close>

theorem overwrite_on_merge:
  assumes "registrationNumber r1 = Val k" and "registrationNumber r2 = Val k"
    and "fst (submit_score t1 r1 d) = Inr rep1"
    and "fst (submit_score t2 r2 (snd (submit_score t1 r1 d))) = Inr rep2"
  shows "\<exists>row. lookup k (snd (submit_score t2 r2 (snd (submit_score t1 r1 d)))) = Some row \<and>
     levels_completed row = or_number (levelsCompleted r2) 0 \<and>
     accuracy_rate row = or_number (accuracyRate r2) 0 \<and>
     time_remaining row = or_number (timeRemaining r2) 0 \<and>
     level_breakdown row = Some (or_json (levelBreakdown r2) (JObject [])) \<and>
     (\<forall>v. levelsCompleted r2 = Val v \<longrightarrow> levels_completed row = v) \<and>
     (\<forall>v. accuracyRate r2 = Val v \<longrightarrow> accuracy_rate row = v) \<and>
     (\<forall>v. timeRemaining r2 = Val v \<longrightarrow> time_remaining row = v) \<and>
     (\<forall>m. levelBreakdown r2 = Val (JObject m) \<longrightarrow> level_breakdown row = Some (JObject m)) \<and>
     (\<forall>s1 s2. finalScore r1 = Val s1 \<and> finalScore r2 = Val s2 \<and> lookup k d = None \<longrightarrow>
        final_score row = max s1 s2)"
proof -
  let ?d1 = "snd (submit_score t1 r1 d)"
  let ?d2 = "snd (submit_score t2 r2 ?d1)"
  from submit_score_Inr_D [OF submit_score_fst_snd [OF assms(3)]] assms(1)
  obtain s1 where k: "k \<noteq> []" and s1: "finalScore r1 = Val s1" by auto
  from submit_score_Inr_D [OF submit_score_fst_snd [OF assms(4)]]
  obtain s2 where s2: "finalScore r2 = Val s2" by auto
  from submit_score_ok [OF assms(2) k s2, of t2 ?d1] obtain ex where
    ex: "excluded_row t2 (next_rowid ?d1) (submit_params r2) = Some ex"
    and l: "lookup k ?d2 = Some (case lookup k ?d1 of None \<Rightarrow> ex | Some r \<Rightarrow> do_update ex r)"
    by auto
  define row where "row = (case lookup k ?d1 of None \<Rightarrow> ex | Some r \<Rightarrow> do_update ex r)"
  note exD = excluded_row_SomeD [OF ex]
  have lc: "levels_completed row = or_number (levelsCompleted r2) 0"
    using exD by (simp add: row_def do_update_def submit_params_def split: option.splits)
  have ar: "accuracy_rate row = or_number (accuracyRate r2) 0"
    using exD by (simp add: row_def do_update_def submit_params_def split: option.splits)
  have tr: "time_remaining row = or_number (timeRemaining r2) 0"
    using exD by (simp add: row_def do_update_def submit_params_def split: option.splits)
  have lb: "level_breakdown row = Some (or_json (levelBreakdown r2) (JObject []))"
    using exD by (simp add: row_def do_update_def submit_params_def split: option.splits)
  have fs: "lookup k d = None \<Longrightarrow> final_score row = max s1 s2"
    using best_submit [OF assms(2) k s2, of t2 ?d1] best_submit [OF assms(1) k s1, of t1 d] l
    by (simp add: row_def)
  from l lc ar tr lb fs s1 s2 show ?thesis
    unfolding row_def [symmetric] by auto
qed

theorem overwrite_on_merge_witness:
  "\<exists>row. lookup ''A1'' (snd (submit_score 2 (attempt ''A1'' (Val 300) (Val 1))
             (snd (submit_score 1 (attempt ''A1'' (Val 500) (Val 3)) initial_db)))) = Some row \<and>
         final_score row = 500 \<and> levels_completed row = 1"
proof -
  let ?r1 = "attempt ''A1'' (Val 500) (Val 3)" and ?r2 = "attempt ''A1'' (Val 300) (Val 1)"
  have k: "registrationNumber ?r1 = Val ''A1''" "registrationNumber ?r2 = Val ''A1''"
    by (simp_all add: attempt_def)
  have s1: "fst (submit_score 1 ?r1 initial_db) =
      Inr \<lparr>success = True, message = ''Score submitted successfully!'', scoreId = 1, rank = None\<rparr>"
    by (simp add: submit_score_def upsertQuery_def excluded_row_def submit_params_def
        attempt_def initial_db_def next_rowid_def)
  have s2: "fst (submit_score 2 ?r2 (snd (submit_score 1 ?r1 initial_db))) =
      Inr \<lparr>success = True, message = ''Score submitted successfully!'', scoreId = 1, rank = None\<rparr>"
    by (simp add: submit_score_def upsertQuery_def excluded_row_def submit_params_def
        attempt_def initial_db_def next_rowid_def)
  have n: "lookup ''A1'' initial_db = None"
    by (simp add: lookup_def initial_db_def)
  from overwrite_on_merge [OF k s1 s2] n show ?thesis
    by (auto simp: attempt_def)
qed

text \<open>
  Claim C4. Submit answers \<open>InvalidArgument\<close> exactly when the registration number is
  absent, null or the empty string, or the final score is absent; the database is then
  unchanged. A Submit with a key and the final score 0 is accepted: it succeeds and the
  key's stored score is 0 merged with the score stored before.
\<close>

theorem submit_validation:
  "(fst (submit_score now req d) = Inl InvalidArgument \<longleftrightarrow>
      registrationNumber req \<in> {Undefined, Null, Val []} \<or> finalScore req = Undefined) \<and>
   (fst (submit_score now req d) = Inl InvalidArgument \<longrightarrow> snd (submit_score now req d) = d) \<and>
   (\<forall>k. registrationNumber req = Val k \<and> k \<noteq> [] \<and> finalScore req = Val 0 \<longrightarrow>
      (\<exists>rep. fst (submit_score now req d) = Inr rep) \<and>
      map_option final_score (lookup k (snd (submit_score now req d))) =
        Some (case lookup k d of None \<Rightarrow> 0 | Some r \<Rightarrow> max (final_score r) 0))"
proof (intro conjI allI impI)
  show "fst (submit_score now req d) = Inl InvalidArgument \<longleftrightarrow>
      registrationNumber req \<in> {Undefined, Null, Val []} \<or> finalScore req = Undefined"
    unfolding submit_score_invalid_iff falsy_string_iff ..
next
  assume "fst (submit_score now req d) = Inl InvalidArgument"
  then show "snd (submit_score now req d) = d"
    by (rule submit_score_invalid_unchanged)
next
  fix k assume a: "registrationNumber req = Val k \<and> k \<noteq> [] \<and> finalScore req = Val 0"
  then have k: "registrationNumber req = Val k" and ne: "k \<noteq> []" and s: "finalScore req = Val 0"
    by simp_all
  from submit_score_ok [OF k ne s, of now d]
  show "\<exists>rep. fst (submit_score now req d) = Inr rep" by auto
  from best_submit [OF k ne s, of now d]
  show "map_option final_score (lookup k (snd (submit_score now req d))) =
        Some (case lookup k d of None \<Rightarrow> 0 | Some r \<Rightarrow> max (final_score r) 0)"
    by (simp split: option.splits)
qed

theorem submit_validation_witness:
  "fst (submit_score 1 (attempt ''A1'' Undefined Undefined) initial_db) = Inl InvalidArgument \<and>
   snd (submit_score 1 (attempt ''A1'' Undefined Undefined) initial_db) = initial_db \<and>
   (\<exists>rep. fst (submit_score 1 (attempt ''A1'' (Val 0) Undefined) initial_db) = Inr rep) \<and>
   map_option final_score
     (lookup ''A1'' (snd (submit_score 1 (attempt ''A1'' (Val 0) Undefined) initial_db))) = Some 0"
  using submit_validation [of 1 "attempt ''A1'' Undefined Undefined" initial_db]
    submit_validation [of 1 "attempt ''A1'' (Val 0) Undefined" initial_db]
  by (simp add: attempt_def lookup_def initial_db_def)

text \<open>
  Claim C10. With a usable registration number, \<open>InvalidArgument\<close> is the answer only to
  an absent final score. A final score that is \<open>null\<close> passes the validation, fails on
  the \<^verbatim>\<open>NOT NULL\<close> constraint of \<^verbatim>\<open>final_score\<close>, is answered with the storage error
  (status 500), and leaves the database unchanged.
\<close>

theorem submit_null_score:
  assumes "truthy_string (registrationNumber req)"
  shows "(fst (submit_score now req d) = Inl InvalidArgument \<longleftrightarrow> finalScore req = Undefined) \<and>
    (finalScore req = Null \<longrightarrow>
       submit_score now req d = (Inl StorageError, d) \<and>
       upsertQuery now (submit_params req) d = None \<and>
       http_status StorageError = 500)"
  using assms
  by (auto simp: submit_score_invalid_iff submit_score_null upsertQuery_None_iff
      excluded_submit_null)

theorem submit_null_score_witness:
  "submit_score 1 (attempt ''A1'' Null Undefined) initial_db = (Inl StorageError, initial_db) \<and>
   fst (submit_score 1 (attempt ''A1'' Undefined Undefined) initial_db) = Inl InvalidArgument"
  using submit_null_score [of "attempt ''A1'' Null Undefined" 1 initial_db]
    submit_null_score [of "attempt ''A1'' Undefined Undefined" 1 initial_db]
  by (simp add: attempt_def)


lemma upsert_insert_rowid:
  assumes "upsertQuery now p d = Some d'" and "p_registration_number p = Some k"
    and "lookup k d = None"
  shows "\<exists>row. lookup k d' = Some row \<and> rowid row = last_insert_rowid d'"
proof -
  from assms(1) obtain ex where ex: "excluded_row now (next_rowid d) p = Some ex"
    by (auto simp: upsertQuery_def split: option.splits)
  from excluded_row_SomeD [OF ex] assms(2) have k: "registration_number ex = k" by simp
  with assms(3) have "registration_number ex \<notin> registration_number ` set (rows d)"
    by (simp add: lookup_None_iff)
  with assms(1) ex have d': "d' = d\<lparr>rows := rows d @ [ex], sqlite_sequence := rowid ex,
                        last_insert_rowid := rowid ex\<rparr>"
    by (simp add: upsertQuery_def)
  from assms(3) have "find (\<lambda>r. registration_number r = k) (rows d) = None"
    by (simp add: lookup_def)
  then have "lookup k d' = Some ex"
    using k by (simp add: d' lookup_def find_append_new)
  then show ?thesis by (simp add: d')
qed

text \<open>
  Claim C8, as the code has it. A successful Submit answers with the success flag, the
  message, a \<open>scoreId\<close> and the rank \<open>null\<close>; the reply has no further field. When the
  call creates the record, \<open>scoreId\<close> is the rowid of that record.
\<close>

theorem submit_reply_shape:
  assumes "submit_score now req d = (Inr rep, d')"
  shows "success rep = True \<and> message rep = ''Score submitted successfully!'' \<and>
    rank rep = None \<and>
    (\<forall>k. registrationNumber req = Val k \<and> lookup k d = None \<longrightarrow>
       (\<exists>row. lookup k d' = Some row \<and> rowid row = scoreId rep))"
proof -
  from assms have u: "upsertQuery now (submit_params req) d = Some d'"
    and rep: "rep = \<lparr>success = True, message = ''Score submitted successfully!'',
                scoreId = last_insert_rowid d', rank = None\<rparr>"
    by (auto simp: submit_score_def split: if_splits option.splits)
  have "\<exists>row. lookup k d' = Some row \<and> rowid row = scoreId rep"
    if "registrationNumber req = Val k" "lookup k d = None" for k
  proof -
    from that(1) have "p_registration_number (submit_params req) = Some k"
      by (simp add: submit_params_def)
    from upsert_insert_rowid [OF u this that(2)] show ?thesis
      by (simp add: rep)
  qed
  with rep show ?thesis by auto
qed

theorem submit_reply_shape_witness:
  "\<exists>row. lookup ''A1'' (snd (submit_score 1 (attempt ''A1'' (Val 100) Undefined) initial_db)) = Some row \<and>
         rowid row = 1"
proof -
  let ?r = "attempt ''A1'' (Val 100) Undefined"
  let ?d = "\<lparr>rows = [\<lparr>rowid = 1, registration_number = ''A1'', student_name = Some ''Anonymous'',
      final_score = 100, levels_completed = 0, accuracy_rate = 0, time_remaining = 0,
      level_breakdown = Some (JObject []), completion_time = 1, ip_address = None,
      session_id = None\<rparr>], sqlite_sequence = 1, last_insert_rowid = 1\<rparr>"
  have s: "submit_score 1 ?r initial_db =
      (Inr \<lparr>success = True, message = ''Score submitted successfully!'', scoreId = 1, rank = None\<rparr>, ?d)"
    by (simp add: submit_score_def upsertQuery_def excluded_row_def submit_params_def
        attempt_def initial_db_def next_rowid_def or_string_def or_number_def or_json_def or_else_def)
  have n: "lookup ''A1'' initial_db = None"
    by (simp add: lookup_def initial_db_def)
  have k: "registrationNumber ?r = Val ''A1''"
    by (simp add: attempt_def)
  from submit_reply_shape [OF s] k n
  have "\<exists>row. lookup ''A1'' ?d = Some row \<and> rowid row = 1" by simp
  then show ?thesis by (simp only: s snd_conv)
qed

lemma submit_A_B_A:
  "submit_all [(1, attempt ''A1'' (Val 100) Undefined), (2, attempt ''B1'' (Val 100) Undefined),
               (3, attempt ''A1'' (Val 100) Undefined)] initial_db =
   ([Inr \<lparr>success = True, message = ''Score submitted successfully!'', scoreId = 1, rank = None\<rparr>,
     Inr \<lparr>success = True, message = ''Score submitted successfully!'', scoreId = 2, rank = None\<rparr>,
     Inr \<lparr>success = True, message = ''Score submitted successfully!'', scoreId = 2, rank = None\<rparr>],
    \<lparr>rows = [\<lparr>rowid = 1, registration_number = ''A1'', student_name = Some ''Anonymous'',
              final_score = 100, levels_completed = 0, accuracy_rate = 0, time_remaining = 0,
              level_breakdown = Some (JObject []), completion_time = 3, ip_address = None,
              session_id = None\<rparr>,
            \<lparr>rowid = 2, registration_number = ''B1'', student_name = Some ''Anonymous'',
              final_score = 100, levels_completed = 0, accuracy_rate = 0, time_remaining = 0,
              level_breakdown = Some (JObject []), completion_time = 2, ip_address = None,
              session_id = None\<rparr>],
     sqlite_sequence = 3, last_insert_rowid = 2\<rparr>)"
  by (simp add: submit_score_def upsertQuery_def excluded_row_def submit_params_def
      attempt_def initial_db_def next_rowid_def or_string_def or_number_def or_json_def
      or_else_def do_update_def)

text \<open>
  The reply to a Submit that creates the record of ``A1'' and the reply to a Submit that
  merges into the record of ``A1'' are the same reply: nothing in it tells the two apart.
  And when ``A1'', ``B1'' and again ``A1'' submit, the third call merges into the record
  with rowid 1 and answers with the \<open>scoreId\<close> 2, the rowid of the record of ``B1''.
\<close>

theorem submit_reply_no_created_flag:
  "fst (submit_score 2 (attempt ''A1'' (Val 100) Undefined) initial_db) =
   fst (submit_score 2 (attempt ''A1'' (Val 100) Undefined)
          (snd (submit_score 1 (attempt ''A1'' (Val 100) Undefined) initial_db))) \<and>
   lookup ''A1'' initial_db = None \<and>
   lookup ''A1'' (snd (submit_score 1 (attempt ''A1'' (Val 100) Undefined) initial_db)) \<noteq> None \<and>
   map (map_sum id scoreId)
     (fst (submit_all [(1, attempt ''A1'' (Val 100) Undefined),
                       (2, attempt ''B1'' (Val 100) Undefined),
                       (3, attempt ''A1'' (Val 100) Undefined)] initial_db)) =
     [Inr 1, Inr 2, Inr 2] \<and>
   map_option rowid
     (lookup ''A1'' (snd (submit_all [(1, attempt ''A1'' (Val 100) Undefined),
                                      (2, attempt ''B1'' (Val 100) Undefined),
                                      (3, attempt ''A1'' (Val 100) Undefined)] initial_db))) =
     Some 1 \<and>
   map_option rowid
     (lookup ''B1'' (snd (submit_all [(1, attempt ''A1'' (Val 100) Undefined),
                                      (2, attempt ''B1'' (Val 100) Undefined),
                                      (3, attempt ''A1'' (Val 100) Undefined)] initial_db))) =
     Some 2"
proof -
  have "fst (submit_score 2 (attempt ''A1'' (Val 100) Undefined) initial_db) =
   fst (submit_score 2 (attempt ''A1'' (Val 100) Undefined)
          (snd (submit_score 1 (attempt ''A1'' (Val 100) Undefined) initial_db))) \<and>
   lookup ''A1'' initial_db = None \<and>
   lookup ''A1'' (snd (submit_score 1 (attempt ''A1'' (Val 100) Undefined) initial_db)) \<noteq> None"
    by (simp add: submit_score_def upsertQuery_def excluded_row_def submit_params_def
        attempt_def initial_db_def next_rowid_def lookup_def)
  then show ?thesis
    unfolding submit_A_B_A by (simp add: lookup_def)
qed

text \<open>
  Claim C5. On a table without rows the statistics are the count 0 and NULL for the
  maximum and for each of the three averages.
\<close>

theorem stats_empty_store:
  assumes "rows d = []"
  shows "get_stats d =
     \<lparr>st_success = True,
      stats = \<lparr>total_participants = 0, highest_score = None, average_score = None,
               average_levels_completed = None, average_accuracy = None\<rparr>\<rparr>"
  using assms by (simp add: get_stats_def statsQuery_def sql_max_def sql_avg_def)

theorem stats_empty_store_witness:
  "stats (get_stats initial_db) =
     \<lparr>total_participants = 0, highest_score = None, average_score = None,
      average_levels_completed = None, average_accuracy = None\<rparr>"
  using stats_empty_store [of initial_db] by (simp add: initial_db_def)

text \<open>
  Claim C9, as the code has it. With the admin key, clear-all leaves the table without
  rows and answers with the success flag, the message and the time of the call; without
  the key it answers \<open>Unauthorized\<close> and changes nothing. The reply holds no count.
\<close>

theorem clear_all_empties:
  "(or_else key header = Val ''IEEE2025ADMIN'' \<longrightarrow>
      fst (clear_all key header iso_now d) =
        Inr \<lparr>success = True, message = ''All tournament data has been cleared successfully.'',
             timestamp = iso_now\<rparr> \<and>
      rows (snd (clear_all key header iso_now d)) = [] \<and>
      (\<forall>k. lookup k (snd (clear_all key header iso_now d)) = None)) \<and>
   (or_else key header \<noteq> Val ''IEEE2025ADMIN'' \<longrightarrow>
      clear_all key header iso_now d = (Inl Unauthorized, d))"
  by (simp add: clear_all_def clearQuery_def lookup_def)

theorem clear_all_empties_witness:
  "rows (snd (clear_all (Val ''IEEE2025ADMIN'') Undefined ''2025-01-01T00:00:00.000Z''
       (snd (submit_score 1 (attempt ''A1'' (Val 100) Undefined) initial_db)))) = [] \<and>
   clear_all Undefined Undefined ''2025-01-01T00:00:00.000Z'' initial_db =
     (Inl Unauthorized, initial_db)"
  using clear_all_empties [of "Val ''IEEE2025ADMIN''" Undefined "''2025-01-01T00:00:00.000Z''"
      "snd (submit_score 1 (attempt ''A1'' (Val 100) Undefined) initial_db)"]
    clear_all_empties [of Undefined Undefined "''2025-01-01T00:00:00.000Z''" initial_db]
  by (simp add: or_else_def)

text \<open>
  Clearing a table without rows and clearing a table with one row give the same reply.
\<close>

theorem clear_all_no_count:
  "fst (clear_all (Val ''IEEE2025ADMIN'') Undefined ''2025-01-01T00:00:00.000Z'' initial_db) =
   fst (clear_all (Val ''IEEE2025ADMIN'') Undefined ''2025-01-01T00:00:00.000Z''
          (snd (submit_score 1 (attempt ''A1'' (Val 100) Undefined) initial_db))) \<and>
   length (rows initial_db) = 0 \<and>
   length (rows (snd (submit_score 1 (attempt ''A1'' (Val 100) Undefined) initial_db))) = 1"
  by (simp add: clear_all_def submit_score_def upsertQuery_def excluded_row_def submit_params_def
      attempt_def initial_db_def next_rowid_def)

subsection \<open>Ranking\<close>


lemma order_key_le:
  "order_key r1 \<le> order_key r2 \<longleftrightarrow>
     final_score r2 < final_score r1 \<or>
     (final_score r1 = final_score r2 \<and> completion_time r1 \<le> completion_time r2)"
  by (auto simp: order_key_def)

lemma order_key_less:
  "order_key r1 < order_key r2 \<longleftrightarrow>
     final_score r2 < final_score r1 \<or>
     (final_score r1 = final_score r2 \<and> completion_time r1 < completion_time r2)"
  by (auto simp: order_key_def)

lemma ranked_nth:
  "i < length (rows d) \<Longrightarrow>
   ranked_scores d ! i = (Suc i, sort_key order_key (rows d) ! i)"
  by (simp add: ranked_scores_def nth_enumerate_eq)

lemma length_ranked [simp]: "length (ranked_scores d) = length (rows d)"
  by (simp add: ranked_scores_def)

lemma limit_offset_nth:
  assumes "i < length (limit_offset lmt off xs)"
  shows "limit_offset lmt off xs ! i = xs ! (nat off + i) \<and> nat off + i < length xs"
  using assms by (auto simp: limit_offset_def Let_def split: if_splits)

lemma entry_fields [simp]:
  "row_rank (leaderboard_entry (n, r)) = n"
  "row_registration_number (leaderboard_entry (n, r)) = registration_number r"
  "row_final_score (leaderboard_entry (n, r)) = final_score r"
  "row_completion_time (leaderboard_entry (n, r)) = completion_time r"
  by (simp_all add: leaderboard_entry_def)

lemma get_leaderboard_cases:
  "get_leaderboard ql qo d =
     (if sql_integer (or_default (parseInt ql) 100) \<and> sql_integer (or_default (parseInt qo) 0)
      then Inr \<lparr>lb_success = True,
                leaderboard = map leaderboard_entry
                  (limit_offset (or_default (parseInt ql) 100) (or_default (parseInt qo) 0)
                     (ranked_scores d)),
                total = length (limit_offset (or_default (parseInt ql) 100)
                     (or_default (parseInt qo) 0) (ranked_scores d))\<rparr>
      else Inl StorageError)"
  by (simp add: get_leaderboard_def leaderboardQuery_def Let_def)

lemma leaderboard_nth:
  assumes "get_leaderboard ql qo d = Inr rep" and "i < length (leaderboard rep)"
  shows "nat (or_default (parseInt qo) 0) + i < length (rows d) \<and>
         leaderboard rep ! i =
           leaderboard_entry (Suc (nat (or_default (parseInt qo) 0) + i),
             sort_key order_key (rows d) ! (nat (or_default (parseInt qo) 0) + i))"
proof -
  let ?rs = "limit_offset (or_default (parseInt ql) 100) (or_default (parseInt qo) 0) (ranked_scores d)"
  from assms(1) have lb: "leaderboard rep = map leaderboard_entry ?rs"
    by (auto simp: get_leaderboard_cases split: if_splits)
  with assms(2) have i: "i < length ?rs" by simp
  from limit_offset_nth [OF i]
  have m: "nat (or_default (parseInt qo) 0) + i < length (rows d)"
    and n: "?rs ! i = ranked_scores d ! (nat (or_default (parseInt qo) 0) + i)"
    by simp_all
  from i have "leaderboard rep ! i = leaderboard_entry (?rs ! i)"
    by (simp add: lb)
  with m n show ?thesis by (simp add: ranked_nth)
qed

lemma entries_sorted:
  assumes "get_leaderboard ql qo d = Inr rep" and "i < j" and "j < length (leaderboard rep)"
  shows "row_rank (leaderboard rep ! i) < row_rank (leaderboard rep ! j) \<and>
         (row_final_score (leaderboard rep ! j) < row_final_score (leaderboard rep ! i) \<or>
          row_final_score (leaderboard rep ! i) = row_final_score (leaderboard rep ! j) \<and>
          row_completion_time (leaderboard rep ! i) \<le> row_completion_time (leaderboard rep ! j))"
proof -
  let ?o = "nat (or_default (parseInt qo) 0)"
  let ?xs = "sort_key order_key (rows d)"
  from assms(2,3) have i: "i < length (leaderboard rep)" by simp
  note mi = leaderboard_nth [OF assms(1) i] and mj = leaderboard_nth [OF assms(1,3)]
  have "sorted (map order_key ?xs)" by (rule sorted_sort_key)
  from sorted_nth_mono [OF this, of "?o + i" "?o + j"] assms(2) mj
  have "order_key (?xs ! (?o + i)) \<le> order_key (?xs ! (?o + j))" by simp
  then have "final_score (?xs ! (?o + j)) < final_score (?xs ! (?o + i)) \<or>
     (final_score (?xs ! (?o + i)) = final_score (?xs ! (?o + j)) \<and>
      completion_time (?xs ! (?o + i)) \<le> completion_time (?xs ! (?o + j)))"
    by (simp only: order_key_le)
  with mi mj assms(2) show ?thesis by simp
qed

lemma smaller_key_first:
  assumes "get_leaderboard ql qo d = Inr rep"
    and "e1 \<in> set (leaderboard rep)" and "e2 \<in> set (leaderboard rep)"
    and "row_final_score e1 = row_final_score e2"
    and "row_completion_time e1 < row_completion_time e2"
  shows "row_rank e1 < row_rank e2"
proof -
  let ?lb = "leaderboard rep"
  from assms(2) obtain i where i: "i < length ?lb" "?lb ! i = e1"
    by (auto simp: in_set_conv_nth)
  from assms(3) obtain j where j: "j < length ?lb" "?lb ! j = e2"
    by (auto simp: in_set_conv_nth)
  have "i < j"
  proof (rule ccontr)
    assume "\<not> i < j"
    then consider "i = j" | "j < i" by linarith
    then show False
    proof cases
      case 1
      with i j assms(5) show False by simp
    next
      case 2
      from entries_sorted [OF assms(1) 2 i(1)] i(2) j(2) assms(4,5) show False by auto
    qed
  qed
  from entries_sorted [OF assms(1) this j(1)] i j show ?thesis by simp
qed

lemma sort_key_keys_distinct:
  "distinct (map f xs) \<Longrightarrow> distinct (map f (sort_key g xs))"
proof -
  have "mset (map f (sort_key g xs)) = mset (map f xs)" by simp
  then show "distinct (map f xs) \<Longrightarrow> distinct (map f (sort_key g xs))"
    using mset_eq_imp_distinct_iff by blast
qed

lemma length_filter_sort_key:
  "length (filter P (sort_key f xs)) = length (filter P xs)"
proof -
  have "mset (filter P (sort_key f xs)) = mset (filter P xs)"
    by (simp only: mset_filter mset_sort)
  then show ?thesis by (rule mset_eq_length)
qed

lemma sorted_position_lower:
  assumes "sorted (map f xs)" and "i < length xs"
  shows "length (filter (\<lambda>x. f x < f (xs ! i)) xs) \<le> i"
proof -
  have "filter (\<lambda>x. f x < f (xs ! i)) (drop i xs) = []"
  proof -
    have "\<not> f x < f (xs ! i)" if "x \<in> set (drop i xs)" for x
    proof -
      from that obtain j where j: "j < length (drop i xs)" "drop i xs ! j = x"
        by (auto simp: in_set_conv_nth)
      then have ij: "i + j < length xs" "xs ! (i + j) = x" by simp_all
      from sorted_nth_mono [OF assms(1), of i "i + j"] ij
      have "f (xs ! i) \<le> f x" by simp
      then show ?thesis by (simp add: not_less)
    qed
    then show ?thesis by (simp add: filter_empty_conv)
  qed
  then have "filter (\<lambda>x. f x < f (xs ! i)) xs = filter (\<lambda>x. f x < f (xs ! i)) (take i xs)"
    by (metis append_Nil2 append_take_drop_id filter_append)
  moreover have "length (filter (\<lambda>x. f x < f (xs ! i)) (take i xs)) \<le> length (take i xs)"
    by (rule length_filter_le)
  ultimately show ?thesis using assms(2) by simp
qed

lemma sorted_position_upper:
  assumes "sorted (map f xs)" and "i < length xs"
  shows "i < length (filter (\<lambda>x. f x \<le> f (xs ! i)) xs)"
proof -
  have all: "f x \<le> f (xs ! i)" if "x \<in> set (take (Suc i) xs)" for x
  proof -
    from that obtain j where j: "j < length (take (Suc i) xs)" "take (Suc i) xs ! j = x"
      by (auto simp: in_set_conv_nth)
    with assms(2) have ji: "j \<le> i" "xs ! j = x" by simp_all
    from sorted_nth_mono [OF assms(1), of j i] ji assms(2) show ?thesis by simp
  qed
  then have "filter (\<lambda>x. f x \<le> f (xs ! i)) (take (Suc i) xs) = take (Suc i) xs"
    by (simp add: filter_id_conv)
  then have "length (filter (\<lambda>x. f x \<le> f (xs ! i)) (take (Suc i) xs)) = Suc i"
    using assms(2) by simp
  moreover have "length (filter (\<lambda>x. f x \<le> f (xs ! i)) xs) =
      length (filter (\<lambda>x. f x \<le> f (xs ! i)) (take (Suc i) xs)) +
      length (filter (\<lambda>x. f x \<le> f (xs ! i)) (drop (Suc i) xs))"
    by (metis append_take_drop_id filter_append length_append)
  ultimately show ?thesis by simp
qed

lemma rankQuery_unique:
  assumes "unique_keys d" and "lookup k d = Some r"
  shows "\<exists>i < length (rows d). rankQuery k d = Some (select_ranked (Suc i, r)) \<and>
           ranked_scores d ! i = (Suc i, r) \<and>
           (\<forall>j < length (rows d). registration_number (snd (ranked_scores d ! j)) = k \<longrightarrow> j = i) \<and>
           length (filter (\<lambda>r'. final_score r < final_score r' \<or>
                     (final_score r' = final_score r \<and> completion_time r' < completion_time r))
                   (rows d)) \<le> i \<and>
           i < length (filter (\<lambda>r'. final_score r < final_score r' \<or>
                     (final_score r' = final_score r \<and> completion_time r' \<le> completion_time r))
                   (rows d))"
proof -
  let ?xs = "sort_key order_key (rows d)"
  from assms(2) have r: "r \<in> set (rows d)" "registration_number r = k"
    by (auto dest: lookup_SomeD)
  then have "r \<in> set ?xs" by simp
  then obtain i where i: "i < length ?xs" "?xs ! i = r"
    by (metis in_set_conv_nth)
  from assms(1) have dist: "distinct (map registration_number ?xs)"
    unfolding unique_keys_def by (rule sort_key_keys_distinct)
  have uniq: "j = i" if "j < length ?xs" "registration_number (?xs ! j) = k" for j
  proof -
    from that i r have eq: "map registration_number ?xs ! j = map registration_number ?xs ! i"
      by simp
    have lj: "j < length (map registration_number ?xs)" using that(1) by simp
    have li: "i < length (map registration_number ?xs)" using i(1) by simp
    from nth_eq_iff_index_eq [OF dist lj li] eq show ?thesis by blast
  qed
  have rk: "ranked_scores d ! j = (Suc j, ?xs ! j)" if "j < length ?xs" for j
    using that by (simp add: ranked_nth)
  have "find (\<lambda>(n, r). registration_number r = k) (ranked_scores d) = Some (Suc i, r)"
    unfolding find_Some_iff
  proof (intro exI [of _ i] conjI allI impI)
    show "i < length (ranked_scores d)" using i by simp
    show "case ranked_scores d ! i of (n, r) \<Rightarrow> registration_number r = k"
      using i r by (simp add: rk)
    show "(Suc i, r) = ranked_scores d ! i" using i by (simp add: rk)
    fix j assume "j < i"
    then have j: "j < length ?xs" "j \<noteq> i" using i by simp_all
    with uniq [of j] have "registration_number (?xs ! j) \<noteq> k" by blast
    then show "\<not> (case ranked_scores d ! j of (n, r) \<Rightarrow> registration_number r = k)"
      by (simp add: rk [OF j(1)])
  qed
  then have 1: "rankQuery k d = Some (select_ranked (Suc i, r))" by (simp add: rankQuery_def)
  have 2: "ranked_scores d ! i = (Suc i, r)" using i by (simp add: rk)
  have 3: "\<forall>j < length (rows d). registration_number (snd (ranked_scores d ! j)) = k \<longrightarrow> j = i"
  proof (intro allI impI)
    fix j assume a: "j < length (rows d)" "registration_number (snd (ranked_scores d ! j)) = k"
    then have "j < length ?xs" "registration_number (?xs ! j) = k"
      by (simp_all add: ranked_nth)
    then show "j = i" by (rule uniq)
  qed
  have srt: "sorted (map order_key ?xs)" by (rule sorted_sort_key)
  from sorted_position_lower [OF srt i(1)]
  have 4: "length (filter (\<lambda>r'. final_score r < final_score r' \<or>
                     (final_score r' = final_score r \<and> completion_time r' < completion_time r))
                   (rows d)) \<le> i"
    by (simp only: i(2) order_key_less length_filter_sort_key)
  from sorted_position_upper [OF srt i(1)]
  have 5: "i < length (filter (\<lambda>r'. final_score r < final_score r' \<or>
                     (final_score r' = final_score r \<and> completion_time r' \<le> completion_time r))
                   (rows d))"
    by (simp only: i(2) order_key_le length_filter_sort_key)
  from i(1) have 0: "i < length (rows d)" by simp
  from 0 1 2 3 4 5 show ?thesis by blast
qed

lemma rankQuery_absent:
  assumes "lookup k d = None"
  shows "rankQuery k d = None"
proof -
  from assms have "\<forall>r \<in> set (rows d). registration_number r \<noteq> k"
    by (auto simp: lookup_def find_None_iff)
  moreover have "snd ` set (ranked_scores d) = set (rows d)"
    by (metis ranked_scores_def map_snd_enumerate set_map set_sort)
  ultimately have "\<forall>e \<in> set (ranked_scores d). registration_number (snd e) \<noteq> k"
    by blast
  then show ?thesis
    by (auto simp: rankQuery_def find_None_iff)
qed

lemma leaderboard_whole:
  assumes "parseInt ql = Some (int (length (rows d)))" and "parseInt qo = Some 0"
    and "rows d \<noteq> []" and "length (rows d) < 9223372036854775807"
  shows "get_leaderboard ql qo d =
           Inr \<lparr>lb_success = True, leaderboard = map leaderboard_entry (ranked_scores d),
                total = length (rows d)\<rparr>"
proof -
  from assms(3) have "int (length (rows d)) \<noteq> 0" by simp
  then have l: "or_default (parseInt ql) 100 = int (length (ranked_scores d))"
    by (simp add: assms(1) or_default_def)
  have o: "or_default (parseInt qo) 0 = 0"
    by (simp add: assms(2) or_default_def)
  from assms(4) have s: "sql_integer (int (length (ranked_scores d)))" "sql_integer 0"
    by (simp_all add: sql_integer_def)
  show ?thesis
    unfolding get_leaderboard_cases l o using s
    by (simp add: limit_offset_def)
qed

subsection \<open>Leaderboard, rank lookup and limits\<close>


lemma parseInt_zero: "parseInt (Some (ascii ''0'')) = Some 0"
  by (simp add: parseInt_def ascii_def is_space_def unsigned_value_def digits_value_def
      digit_val_def to_double_def)

lemma parseInt_two: "parseInt (Some (ascii ''2'')) = Some 2"
  by (simp add: parseInt_def ascii_def is_space_def unsigned_value_def digits_value_def
      digit_val_def to_double_def)

lemma bitlen_huge: "bitlen 99999999999999999999 = 67"
  by (simp add: compute_bitlen)

lemma parseInt_huge:
  "parseInt (Some (ascii ''99999999999999999999'')) = Some 100000000000000000000"
proof -
  have "signed_value (dropWhile is_space (ascii ''99999999999999999999'')) =
      Some 99999999999999999999"
    by (simp add: ascii_def is_space_def unsigned_value_def digits_value_def digit_val_def)
  moreover have "to_double 99999999999999999999 = 100000000000000000000"
    by (simp add: to_double_def bitlen_huge round_to_def)
  ultimately show ?thesis by (simp add: parseInt_def)
qed

lemma submit_new_rows:
  assumes "registrationNumber req = Val k" and "k \<noteq> []" and "finalScore req = Val s"
    and "lookup k d = None"
  shows "\<exists>ex. rows (snd (submit_score now req d)) = rows d @ [ex] \<and>
           registration_number ex = k \<and> final_score ex = s \<and> completion_time ex = now"
proof -
  from submit_score_ok [OF assms(1-3), of now d] obtain d' ex where
    s: "snd (submit_score now req d) = d'"
    and u: "upsertQuery now (submit_params req) d = Some d'"
    and ex: "excluded_row now (next_rowid d) (submit_params req) = Some ex"
    by auto
  from excluded_row_SomeD [OF ex] assms(1,3)
  have exk: "registration_number ex = k" "final_score ex = s" "completion_time ex = now"
    by (simp_all add: submit_params_def)
  from assms(4) exk(1) have "registration_number ex \<notin> registration_number ` set (rows d)"
    by (simp add: lookup_None_iff)
  with u ex have "rows d' = rows d @ [ex]"
    by (auto simp: upsertQuery_def)
  with s exk show ?thesis by auto
qed

lemma default_page:
  "get_leaderboard None None d =
     Inr \<lparr>lb_success = True, leaderboard = map leaderboard_entry (take 100 (ranked_scores d)),
          total = length (take 100 (ranked_scores d))\<rparr>"
  by (simp add: get_leaderboard_cases parseInt_def or_default_def sql_integer_def
      limit_offset_def)

lemma two_new_players:
  assumes "t1 < t2" and "kB \<noteq> []" and "kC \<noteq> []" and "kB \<noteq> kC"
    and "registrationNumber rB = Val kB" and "finalScore rB = Val s"
    and "registrationNumber rC = Val kC" and "finalScore rC = Val s"
  shows "\<exists>rep. get_leaderboard None None (snd (submit_all [(t1, rB), (t2, rC)] initial_db)) = Inr rep \<and>
           map (\<lambda>e. (row_rank e, row_registration_number e)) (leaderboard rep) =
             [(1, kB), (2, kC)]"
proof -
  let ?d1 = "snd (submit_score t1 rB initial_db)"
  let ?d2 = "snd (submit_score t2 rC ?d1)"
  have n0: "lookup kB initial_db = None"
    by (simp add: lookup_def initial_db_def)
  from submit_new_rows [OF assms(5) assms(2) assms(6) n0, of t1] obtain exB where
    r1: "rows ?d1 = [exB]" and b: "registration_number exB = kB" "final_score exB = s"
      "completion_time exB = t1"
    by (auto simp: initial_db_def)
  from r1 b(1) assms(4) have n1: "lookup kC ?d1 = None"
    by (simp add: lookup_def)
  from submit_new_rows [OF assms(7) assms(3) assms(8) n1, of t2] obtain exC where
    r2: "rows ?d2 = [exB, exC]" and c: "registration_number exC = kC" "final_score exC = s"
      "completion_time exC = t2"
    by (auto simp: r1)
  have d2: "snd (submit_all [(t1, rB), (t2, rC)] initial_db) = ?d2"
    by (simp split: prod.splits)
  have "sort_key order_key [exB, exC] = [exB, exC]"
    using assms(1) b c by (simp add: order_key_def)
  then have "ranked_scores ?d2 = [(1, exB), (2, exC)]"
    by (simp add: ranked_scores_def r2)
  then show ?thesis
    unfolding d2 default_page by (simp add: b c)
qed

text \<open>
  Claim C3, as the code has it. Every page of the leaderboard lists its entries by
  increasing rank, in the order \<^verbatim>\<open>final_score DESC, completion_time ASC\<close>: of two entries
  with the same score, the one submitted strictly earlier has the smaller rank. When
  ``B1'' and then, at a later second, ``C1'' are first submitted with the score 100,
  ``B1'' has rank 1 and ``C1'' rank 2. Entries that agree in score and in time are not
  ordered by the query.
\<close>

theorem leaderboard_order:
  "(\<forall>rep. get_leaderboard ql qo d = Inr rep \<longrightarrow>
      (\<forall>i j. i < j \<and> j < length (leaderboard rep) \<longrightarrow>
         row_rank (leaderboard rep ! i) < row_rank (leaderboard rep ! j) \<and>
         (row_final_score (leaderboard rep ! j) < row_final_score (leaderboard rep ! i) \<or>
          row_final_score (leaderboard rep ! i) = row_final_score (leaderboard rep ! j) \<and>
          row_completion_time (leaderboard rep ! i)
            \<le> row_completion_time (leaderboard rep ! j))) \<and>
      (\<forall>e1 \<in> set (leaderboard rep). \<forall>e2 \<in> set (leaderboard rep).
         row_final_score e1 = row_final_score e2 \<and>
         row_completion_time e1 < row_completion_time e2 \<longrightarrow> row_rank e1 < row_rank e2)) \<and>
   (\<forall>t1 t2 rB rC.
      t1 < t2 \<and> registrationNumber rB = Val ''B1'' \<and> finalScore rB = Val 100 \<and>
      registrationNumber rC = Val ''C1'' \<and> finalScore rC = Val 100 \<longrightarrow>
      (\<exists>rep. get_leaderboard None None (snd (submit_all [(t1, rB), (t2, rC)] initial_db)) =
               Inr rep \<and>
             map (\<lambda>e. (row_rank e, row_registration_number e)) (leaderboard rep) =
               [(1, ''B1''), (2, ''C1'')]))"
proof (intro conjI allI ballI impI)
  fix rep i j
  assume rep: "get_leaderboard ql qo d = Inr rep"
    and "i < j \<and> j < length (leaderboard rep)"
  then have ij: "i < j" "j < length (leaderboard rep)" by simp_all
  from entries_sorted [OF rep ij]
  show "row_rank (leaderboard rep ! i) < row_rank (leaderboard rep ! j)" by simp
  from entries_sorted [OF rep ij]
  show "row_final_score (leaderboard rep ! j) < row_final_score (leaderboard rep ! i) \<or>
          row_final_score (leaderboard rep ! i) = row_final_score (leaderboard rep ! j) \<and>
          row_completion_time (leaderboard rep ! i)
            \<le> row_completion_time (leaderboard rep ! j)" by simp
next
  fix rep e1 e2
  assume rep: "get_leaderboard ql qo d = Inr rep"
    and e: "e1 \<in> set (leaderboard rep)" "e2 \<in> set (leaderboard rep)"
    and "row_final_score e1 = row_final_score e2 \<and>
         row_completion_time e1 < row_completion_time e2"
  then have "row_final_score e1 = row_final_score e2"
    "row_completion_time e1 < row_completion_time e2" by simp_all
  with rep e show "row_rank e1 < row_rank e2" by (rule smaller_key_first)
next
  fix t1 t2 :: nat and rB rC :: submission
  assume "t1 < t2 \<and> registrationNumber rB = Val ''B1'' \<and> finalScore rB = Val 100 \<and>
      registrationNumber rC = Val ''C1'' \<and> finalScore rC = Val 100"
  then show "\<exists>rep. get_leaderboard None None (snd (submit_all [(t1, rB), (t2, rC)] initial_db)) =
               Inr rep \<and>
             map (\<lambda>e. (row_rank e, row_registration_number e)) (leaderboard rep) =
               [(1, ''B1''), (2, ''C1'')]"
    using two_new_players [of t1 t2 "''B1''" "''C1''" rB 100 rC] by simp
qed

theorem leaderboard_order_witness:
  "\<exists>rep. get_leaderboard None None
            (snd (submit_all [(1, attempt ''B1'' (Val 100) Undefined),
                              (2, attempt ''C1'' (Val 100) Undefined)] initial_db)) = Inr rep \<and>
         map (\<lambda>e. (row_rank e, row_registration_number e)) (leaderboard rep) =
           [(1, ''B1''), (2, ''C1'')]"
  using leaderboard_order [of None None initial_db, THEN conjunct2, rule_format,
      of 1 2 "attempt ''B1'' (Val 100) Undefined" "attempt ''C1'' (Val 100) Undefined"]
  by (simp add: attempt_def)

lemma submit_two_same_second:
  "k1 \<noteq> k2 \<Longrightarrow> k1 \<noteq> [] \<Longrightarrow> k2 \<noteq> [] \<Longrightarrow>
   snd (submit_all [(5, attempt k1 (Val 100) Undefined), (5, attempt k2 (Val 100) Undefined)]
          initial_db) =
   \<lparr>rows = [\<lparr>rowid = 1, registration_number = k1, student_name = Some ''Anonymous'',
              final_score = 100, levels_completed = 0, accuracy_rate = 0, time_remaining = 0,
              level_breakdown = Some (JObject []), completion_time = 5, ip_address = None,
              session_id = None\<rparr>,
            \<lparr>rowid = 2, registration_number = k2, student_name = Some ''Anonymous'',
              final_score = 100, levels_completed = 0, accuracy_rate = 0, time_remaining = 0,
              level_breakdown = Some (JObject []), completion_time = 5, ip_address = None,
              session_id = None\<rparr>],
     sqlite_sequence = 2, last_insert_rowid = 2\<rparr>"
  by (simp add: submit_score_def upsertQuery_def excluded_row_def submit_params_def
      attempt_def initial_db_def next_rowid_def or_string_def or_number_def or_json_def
      or_else_def)

text \<open>
  ``B1'' and ``C1'' submit the score 100 within the same second. Whoever was inserted
  first has rank 1: the same two records come out in either order.
\<close>

theorem tie_broken_by_insertion_order:
  "map_sum id (map row_registration_number \<circ> leaderboard)
     (get_leaderboard None None
        (snd (submit_all [(5, attempt ''B1'' (Val 100) Undefined),
                          (5, attempt ''C1'' (Val 100) Undefined)] initial_db))) =
     Inr [''B1'', ''C1''] \<and>
   map_sum id (map row_registration_number \<circ> leaderboard)
     (get_leaderboard None None
        (snd (submit_all [(5, attempt ''C1'' (Val 100) Undefined),
                          (5, attempt ''B1'' (Val 100) Undefined)] initial_db))) =
     Inr [''C1'', ''B1''] \<and>
   map_sum id (map row_final_score \<circ> leaderboard)
     (get_leaderboard None None
        (snd (submit_all [(5, attempt ''B1'' (Val 100) Undefined),
                          (5, attempt ''C1'' (Val 100) Undefined)] initial_db))) =
     Inr [100, 100] \<and>
   map_sum id (map row_completion_time \<circ> leaderboard)
     (get_leaderboard None None
        (snd (submit_all [(5, attempt ''B1'' (Val 100) Undefined),
                          (5, attempt ''C1'' (Val 100) Undefined)] initial_db))) =
     Inr [5, 5] \<and>
   map_sum id (map row_final_score \<circ> leaderboard)
     (get_leaderboard None None
        (snd (submit_all [(5, attempt ''C1'' (Val 100) Undefined),
                          (5, attempt ''B1'' (Val 100) Undefined)] initial_db))) =
     Inr [100, 100] \<and>
   map_sum id (map row_completion_time \<circ> leaderboard)
     (get_leaderboard None None
        (snd (submit_all [(5, attempt ''C1'' (Val 100) Undefined),
                          (5, attempt ''B1'' (Val 100) Undefined)] initial_db))) =
     Inr [5, 5]"
proof -
  have ne: "''B1'' \<noteq> ''C1''" "''C1'' \<noteq> ''B1''" "''B1'' \<noteq> []" "''C1'' \<noteq> []"
    by simp_all
  show ?thesis
    unfolding submit_two_same_second [OF ne(1) ne(3) ne(4)]
      submit_two_same_second [OF ne(2) ne(4) ne(3)] default_page
    by (simp add: ranked_scores_def order_key_def)
qed


lemma unique_keys_initial: "unique_keys initial_db"
  by (simp add: unique_keys_def initial_db_def)

lemma map_key_update:
  "map registration_number
     (map (\<lambda>r. if registration_number r = k then do_update ex r else r) xs) =
   map registration_number xs"
  by (induction xs) auto

lemma unique_keys_upsert:
  assumes "unique_keys d" and "upsertQuery now p d = Some d'"
  shows "unique_keys d'"
proof -
  from assms(2) obtain ex where ex: "excluded_row now (next_rowid d) p = Some ex"
    by (auto simp: upsertQuery_def split: option.splits)
  show ?thesis
  proof (cases "registration_number ex \<in> registration_number ` set (rows d)")
    case True
    with assms(2) ex have "rows d' = map (\<lambda>r. if registration_number r = registration_number ex
                                          then do_update ex r else r) (rows d)"
      by (auto simp: upsertQuery_def)
    then have "map registration_number (rows d') = map registration_number (rows d)"
      by (simp only: map_key_update)
    with assms(1) show ?thesis
      by (simp add: unique_keys_def)
  next
    case False
    with assms(2) ex have "rows d' = rows d @ [ex]"
      by (auto simp: upsertQuery_def)
    with assms(1) False show ?thesis
      by (simp add: unique_keys_def)
  qed
qed

lemma unique_keys_submit:
  "unique_keys d \<Longrightarrow> unique_keys (snd (submit_score now req d))"
  by (auto simp: submit_score_def split: option.splits intro: unique_keys_upsert)

lemma unique_keys_submit_all:
  "unique_keys d \<Longrightarrow> unique_keys (snd (submit_all calls d))"
proof (induction calls arbitrary: d)
  case Nil
  then show ?case by simp
next
  case (Cons c calls)
  obtain now req where c: "c = (now, req)" by (cases c)
  from Cons.prems have "unique_keys (snd (submit_score now req d))"
    by (rule unique_keys_submit)
  from Cons.IH [OF this] show ?case
    by (auto simp: c split: prod.splits)
qed

lemma unique_keys_clear:
  "unique_keys d \<Longrightarrow> unique_keys (snd (clear_all key header iso_now d))"
  by (simp add: clear_all_def clearQuery_def unique_keys_def)

text \<open>
  Claim C6. In a table with unique registration numbers, the rank lookup of a key with
  the record \<open>r\<close> answers with the selected columns of \<open>r\<close> and the rank \<open>i + 1\<close>, where
  \<open>i\<close> is the one position of the key in the leaderboard read with the limit equal to
  the number of records and the offset 0, and the entry at \<open>i\<close> is \<open>r\<close> with that rank.
  The position follows the order by score, descending, then by time of submission,
  ascending: at least the records that precede \<open>r\<close> in that order, and fewer than the
  records that precede or equal it, come before \<open>i\<close>. The lookup of a key without a
  record answers \<open>NotFound\<close>.
\<close>

theorem rank_matches_leaderboard:
  assumes "unique_keys d"
    and "length (rows d) < 9223372036854775807"
    and "parseInt ql = Some (int (length (rows d)))"
    and "parseInt qo = Some 0"
  shows "(\<forall>r. lookup k d = Some r \<longrightarrow>
      (\<exists>rep i. get_leaderboard ql qo d = Inr rep \<and> i < length (leaderboard rep) \<and>
         get_rank k d =
           Inr \<lparr>rk_success = True,
                student = \<lparr>row_rank = Suc i, row_registration_number = k,
                  row_student_name = student_name r, row_final_score = final_score r,
                  row_levels_completed = levels_completed r,
                  row_accuracy_rate = accuracy_rate r,
                  row_time_remaining = time_remaining r,
                  row_completion_time = completion_time r\<rparr>\<rparr> \<and>
         leaderboard rep ! i =
           \<lparr>row_rank = Suc i, row_registration_number = k,
            row_student_name = student_name r, row_final_score = final_score r,
            row_levels_completed = levels_completed r,
            row_accuracy_rate = accuracy_rate r,
            row_time_remaining = time_remaining r,
            row_completion_time = completion_time r,
            row_level_breakdown =
              (case level_breakdown r of None \<Rightarrow> JObject [] | Some j \<Rightarrow> j)\<rparr> \<and>
         (\<forall>j < length (leaderboard rep).
            row_registration_number (leaderboard rep ! j) = k \<longrightarrow> j = i) \<and>
         length (filter (\<lambda>r'. final_score r < final_score r' \<or>
                    (final_score r' = final_score r \<and> completion_time r' < completion_time r))
                  (rows d)) \<le> i \<and>
         i < length (filter (\<lambda>r'. final_score r < final_score r' \<or>
                    (final_score r' = final_score r \<and> completion_time r' \<le> completion_time r))
                  (rows d)))) \<and>
    (lookup k d = None \<longrightarrow> get_rank k d = Inl NotFound)"
proof (intro conjI allI impI)
  fix r assume l: "lookup k d = Some r"
  define rep where "rep = \<lparr>lb_success = True,
     leaderboard = map leaderboard_entry (ranked_scores d), total = length (rows d)\<rparr>"
  from l have ne: "rows d \<noteq> []" and key: "registration_number r = k"
    by (auto dest: lookup_SomeD)
  from leaderboard_whole [OF assms(3,4) ne assms(2)]
  have lb: "get_leaderboard ql qo d = Inr rep" by (simp add: rep_def)
  have len: "length (leaderboard rep) = length (rows d)" by (simp add: rep_def)
  have nth: "leaderboard rep ! j = leaderboard_entry (ranked_scores d ! j)"
    if "j < length (rows d)" for j
    using that by (simp add: rep_def)
  from rankQuery_unique [OF assms(1) l] obtain i where
    i: "i < length (rows d)" "rankQuery k d = Some (select_ranked (Suc i, r))"
       "ranked_scores d ! i = (Suc i, r)"
       "\<forall>j < length (rows d). registration_number (snd (ranked_scores d ! j)) = k \<longrightarrow> j = i"
    and lo: "length (filter (\<lambda>r'. final_score r < final_score r' \<or>
                    (final_score r' = final_score r \<and> completion_time r' < completion_time r))
                  (rows d)) \<le> i"
    and hi: "i < length (filter (\<lambda>r'. final_score r < final_score r' \<or>
                    (final_score r' = final_score r \<and> completion_time r' \<le> completion_time r))
                  (rows d))"
    by blast
  from i(2) key have 1: "get_rank k d =
           Inr \<lparr>rk_success = True,
                student = \<lparr>row_rank = Suc i, row_registration_number = k,
                  row_student_name = student_name r, row_final_score = final_score r,
                  row_levels_completed = levels_completed r,
                  row_accuracy_rate = accuracy_rate r,
                  row_time_remaining = time_remaining r,
                  row_completion_time = completion_time r\<rparr>\<rparr>"
    by (simp add: get_rank_def select_ranked_def)
  from nth [OF i(1)] i(3) key have 2: "leaderboard rep ! i =
           \<lparr>row_rank = Suc i, row_registration_number = k,
            row_student_name = student_name r, row_final_score = final_score r,
            row_levels_completed = levels_completed r,
            row_accuracy_rate = accuracy_rate r,
            row_time_remaining = time_remaining r,
            row_completion_time = completion_time r,
            row_level_breakdown =
              (case level_breakdown r of None \<Rightarrow> JObject [] | Some j \<Rightarrow> j)\<rparr>"
    by (simp add: leaderboard_entry_def)
  have 3: "\<forall>j < length (leaderboard rep).
            row_registration_number (leaderboard rep ! j) = k \<longrightarrow> j = i"
  proof (intro allI impI)
    fix j assume j: "j < length (leaderboard rep)"
      and "row_registration_number (leaderboard rep ! j) = k"
    then have "j < length (rows d)" "registration_number (snd (ranked_scores d ! j)) = k"
      by (simp_all add: len nth leaderboard_entry_def case_prod_unfold)
    with i(4) show "j = i" by blast
  qed
  from i(1) len have 0: "i < length (leaderboard rep)" by simp
  from lb 0 1 2 3 lo hi
  show "\<exists>rep i. get_leaderboard ql qo d = Inr rep \<and> i < length (leaderboard rep) \<and>
         get_rank k d =
           Inr \<lparr>rk_success = True,
                student = \<lparr>row_rank = Suc i, row_registration_number = k,
                  row_student_name = student_name r, row_final_score = final_score r,
                  row_levels_completed = levels_completed r,
                  row_accuracy_rate = accuracy_rate r,
                  row_time_remaining = time_remaining r,
                  row_completion_time = completion_time r\<rparr>\<rparr> \<and>
         leaderboard rep ! i =
           \<lparr>row_rank = Suc i, row_registration_number = k,
            row_student_name = student_name r, row_final_score = final_score r,
            row_levels_completed = levels_completed r,
            row_accuracy_rate = accuracy_rate r,
            row_time_remaining = time_remaining r,
            row_completion_time = completion_time r,
            row_level_breakdown =
              (case level_breakdown r of None \<Rightarrow> JObject [] | Some j \<Rightarrow> j)\<rparr> \<and>
         (\<forall>j < length (leaderboard rep).
            row_registration_number (leaderboard rep ! j) = k \<longrightarrow> j = i) \<and>
         length (filter (\<lambda>r'. final_score r < final_score r' \<or>
                    (final_score r' = final_score r \<and> completion_time r' < completion_time r))
                  (rows d)) \<le> i \<and>
         i < length (filter (\<lambda>r'. final_score r < final_score r' \<or>
                    (final_score r' = final_score r \<and> completion_time r' \<le> completion_time r))
                  (rows d))"
    by blast
next
  assume "lookup k d = None"
  then show "get_rank k d = Inl NotFound"
    by (simp add: get_rank_def rankQuery_absent)
qed


lemma submit_two_scores:
  "snd (submit_all [(1, attempt ''B1'' (Val 100) Undefined), (2, attempt ''C1'' (Val 200) Undefined)]
          initial_db) =
   \<lparr>rows = [\<lparr>rowid = 1, registration_number = ''B1'', student_name = Some ''Anonymous'',
              final_score = 100, levels_completed = 0, accuracy_rate = 0, time_remaining = 0,
              level_breakdown = Some (JObject []), completion_time = 1, ip_address = None,
              session_id = None\<rparr>,
            \<lparr>rowid = 2, registration_number = ''C1'', student_name = Some ''Anonymous'',
              final_score = 200, levels_completed = 0, accuracy_rate = 0, time_remaining = 0,
              level_breakdown = Some (JObject []), completion_time = 2, ip_address = None,
              session_id = None\<rparr>],
     sqlite_sequence = 2, last_insert_rowid = 2\<rparr>"
  by (simp add: submit_score_def upsertQuery_def excluded_row_def submit_params_def
      attempt_def initial_db_def next_rowid_def or_string_def or_number_def or_json_def
      or_else_def)

theorem rank_matches_leaderboard_witness:
  "get_rank ''B1'' (snd (submit_all [(1, attempt ''B1'' (Val 100) Undefined),
                                     (2, attempt ''C1'' (Val 200) Undefined)] initial_db)) =
     Inr \<lparr>rk_success = True,
          student = \<lparr>row_rank = 2, row_registration_number = ''B1'',
            row_student_name = Some ''Anonymous'', row_final_score = 100,
            row_levels_completed = 0, row_accuracy_rate = 0, row_time_remaining = 0,
            row_completion_time = 1\<rparr>\<rparr> \<and>
   map_sum id (\<lambda>rep. leaderboard rep ! 1)
     (get_leaderboard (Some (ascii ''2'')) (Some (ascii ''0''))
        (snd (submit_all [(1, attempt ''B1'' (Val 100) Undefined),
                          (2, attempt ''C1'' (Val 200) Undefined)] initial_db))) =
     Inr \<lparr>row_rank = 2, row_registration_number = ''B1'',
          row_student_name = Some ''Anonymous'', row_final_score = 100,
          row_levels_completed = 0, row_accuracy_rate = 0, row_time_remaining = 0,
          row_completion_time = 1, row_level_breakdown = JObject []\<rparr> \<and>
   get_rank ''Z9'' (snd (submit_all [(1, attempt ''B1'' (Val 100) Undefined),
                                     (2, attempt ''C1'' (Val 200) Undefined)] initial_db)) =
     Inl NotFound"
proof -
  let ?d = "snd (submit_all [(1, attempt ''B1'' (Val 100) Undefined),
                             (2, attempt ''C1'' (Val 200) Undefined)] initial_db)"
  let ?rB = "\<lparr>rowid = 1, registration_number = ''B1'', student_name = Some ''Anonymous'',
              final_score = 100, levels_completed = 0, accuracy_rate = 0, time_remaining = 0,
              level_breakdown = Some (JObject []), completion_time = 1, ip_address = None,
              session_id = None\<rparr>"
  have u: "unique_keys ?d"
    unfolding submit_two_scores by (simp add: unique_keys_def)
  have n: "length (rows ?d) < 9223372036854775807"
    unfolding submit_two_scores by simp
  have l: "parseInt (Some (ascii ''2'')) = Some (int (length (rows ?d)))"
    unfolding submit_two_scores by (simp add: parseInt_two)
  have lB: "lookup ''B1'' ?d = Some ?rB"
    unfolding submit_two_scores by (simp add: lookup_def)
  have lZ: "lookup ''Z9'' ?d = None"
    unfolding submit_two_scores by (simp add: lookup_def)
  have lo: "length (filter (\<lambda>r'. final_score ?rB < final_score r' \<or>
                    (final_score r' = final_score ?rB \<and> completion_time r' < completion_time ?rB))
                  (rows ?d)) = 1"
    unfolding submit_two_scores by simp
  have hi: "length (filter (\<lambda>r'. final_score ?rB < final_score r' \<or>
                    (final_score r' = final_score ?rB \<and> completion_time r' \<le> completion_time ?rB))
                  (rows ?d)) = 2"
    unfolding submit_two_scores by simp
  note inst = rank_matches_leaderboard [OF u n l parseInt_zero]
  from inst [of "''B1''", THEN conjunct1, rule_format, OF lB] obtain rep i where
    rep: "get_leaderboard (Some (ascii ''2'')) (Some (ascii ''0'')) ?d = Inr rep"
    and rk: "get_rank ''B1'' ?d =
           Inr \<lparr>rk_success = True,
                student = \<lparr>row_rank = Suc i, row_registration_number = ''B1'',
                  row_student_name = student_name ?rB, row_final_score = final_score ?rB,
                  row_levels_completed = levels_completed ?rB,
                  row_accuracy_rate = accuracy_rate ?rB,
                  row_time_remaining = time_remaining ?rB,
                  row_completion_time = completion_time ?rB\<rparr>\<rparr>"
    and en: "leaderboard rep ! i =
           \<lparr>row_rank = Suc i, row_registration_number = ''B1'',
            row_student_name = student_name ?rB, row_final_score = final_score ?rB,
            row_levels_completed = levels_completed ?rB,
            row_accuracy_rate = accuracy_rate ?rB,
            row_time_remaining = time_remaining ?rB,
            row_completion_time = completion_time ?rB,
            row_level_breakdown =
              (case level_breakdown ?rB of None \<Rightarrow> JObject [] | Some j \<Rightarrow> j)\<rparr>"
    and b1: "length (filter (\<lambda>r'. final_score ?rB < final_score r' \<or>
                    (final_score r' = final_score ?rB \<and> completion_time r' < completion_time ?rB))
                  (rows ?d)) \<le> i"
    and b2: "i < length (filter (\<lambda>r'. final_score ?rB < final_score r' \<or>
                    (final_score r' = final_score ?rB \<and> completion_time r' \<le> completion_time ?rB))
                  (rows ?d))"
    by blast
  from b1 b2 have i: "i = 1" unfolding lo hi by simp
  from rk have 1: "get_rank ''B1'' ?d =
     Inr \<lparr>rk_success = True,
          student = \<lparr>row_rank = 2, row_registration_number = ''B1'',
            row_student_name = Some ''Anonymous'', row_final_score = 100,
            row_levels_completed = 0, row_accuracy_rate = 0, row_time_remaining = 0,
            row_completion_time = 1\<rparr>\<rparr>"
    unfolding i by simp
  from en have 2: "map_sum id (\<lambda>rep. leaderboard rep ! 1)
     (get_leaderboard (Some (ascii ''2'')) (Some (ascii ''0'')) ?d) =
     Inr \<lparr>row_rank = 2, row_registration_number = ''B1'',
          row_student_name = Some ''Anonymous'', row_final_score = 100,
          row_levels_completed = 0, row_accuracy_rate = 0, row_time_remaining = 0,
          row_completion_time = 1, row_level_breakdown = JObject []\<rparr>"
    unfolding rep i by simp
  from inst [of "''Z9''", THEN conjunct2] lZ
  have 3: "get_rank ''Z9'' ?d = Inl NotFound" by blast
  from 1 2 3 show ?thesis by blast
qed

text \<open>
  Claim C7, as the code has it. A limit that \<^verbatim>\<open>parseInt\<close> reads as 0 is falsy, so
  \<^verbatim>\<open>parseInt(req.query.limit) || 100\<close> is 100 and the reply is the reply to a request
  without a limit: the slice of at most 100 entries from the offset on, when the offset
  is a 64-bit integer to SQLite, and the storage error when it is not.
\<close>

theorem limit_zero_is_default:
  assumes "parseInt ql = Some 0"
  shows "get_leaderboard ql qo d = get_leaderboard None qo d \<and>
    (sql_integer (or_default (parseInt qo) 0) \<longrightarrow>
       get_leaderboard ql qo d =
         Inr \<lparr>lb_success = True,
              leaderboard = map leaderboard_entry
                (take 100 (drop (nat (or_default (parseInt qo) 0)) (ranked_scores d))),
              total = length (take 100 (drop (nat (or_default (parseInt qo) 0))
                (ranked_scores d)))\<rparr>) \<and>
    (\<not> sql_integer (or_default (parseInt qo) 0) \<longrightarrow>
       get_leaderboard ql qo d = Inl StorageError)"
proof -
  have "parseInt None = None" by (simp add: parseInt_def)
  then have l: "or_default (parseInt ql) 100 = 100" "or_default (parseInt None) 100 = 100"
    by (simp_all add: assms or_default_def)
  have s: "sql_integer 100" by (simp add: sql_integer_def)
  show ?thesis
    unfolding get_leaderboard_cases l using s
    by (simp add: limit_offset_def)
qed

theorem limit_zero_is_default_witness:
  "map_sum id (map (\<lambda>e. (row_rank e, row_registration_number e)) \<circ> leaderboard)
     (get_leaderboard (Some (ascii ''0'')) (Some (ascii ''0''))
        (snd (submit_all [(1, attempt ''B1'' (Val 100) Undefined),
                          (2, attempt ''C1'' (Val 200) Undefined)] initial_db))) =
     Inr [(1, ''C1''), (2, ''B1'')] \<and>
   get_leaderboard (Some (ascii ''0'')) (Some (ascii ''99999999999999999999''))
        (snd (submit_all [(1, attempt ''B1'' (Val 100) Undefined),
                          (2, attempt ''C1'' (Val 200) Undefined)] initial_db)) =
     Inl StorageError"
proof -
  let ?d = "snd (submit_all [(1, attempt ''B1'' (Val 100) Undefined),
                             (2, attempt ''C1'' (Val 200) Undefined)] initial_db)"
  have o: "sql_integer (or_default (parseInt (Some (ascii ''0''))) 0)"
    by (simp add: parseInt_zero or_default_def sql_integer_def)
  have h: "\<not> sql_integer (or_default (parseInt (Some (ascii ''99999999999999999999''))) 0)"
    by (simp add: parseInt_huge or_default_def sql_integer_def)
  have r: "ranked_scores ?d =
      [(1, \<lparr>rowid = 2, registration_number = ''C1'', student_name = Some ''Anonymous'',
              final_score = 200, levels_completed = 0, accuracy_rate = 0, time_remaining = 0,
              level_breakdown = Some (JObject []), completion_time = 2, ip_address = None,
              session_id = None\<rparr>),
       (2, \<lparr>rowid = 1, registration_number = ''B1'', student_name = Some ''Anonymous'',
              final_score = 100, levels_completed = 0, accuracy_rate = 0, time_remaining = 0,
              level_breakdown = Some (JObject []), completion_time = 1, ip_address = None,
              session_id = None\<rparr>)]"
    unfolding submit_two_scores by (simp add: ranked_scores_def order_key_def)
  from limit_zero_is_default [OF parseInt_zero, of "Some (ascii ''0'')" ?d] o
  have "get_leaderboard (Some (ascii ''0'')) (Some (ascii ''0'')) ?d =
         Inr \<lparr>lb_success = True,
              leaderboard = map leaderboard_entry
                (take 100 (drop (nat (or_default (parseInt (Some (ascii ''0''))) 0)) (ranked_scores ?d))),
              total = length (take 100 (drop (nat (or_default (parseInt (Some (ascii ''0''))) 0))
                (ranked_scores ?d)))\<rparr>"
    by blast
  then have 1: "map_sum id (map (\<lambda>e. (row_rank e, row_registration_number e)) \<circ> leaderboard)
     (get_leaderboard (Some (ascii ''0'')) (Some (ascii ''0'')) ?d) =
     Inr [(1, ''C1''), (2, ''B1'')]"
    unfolding r by (simp add: parseInt_zero or_default_def)
  from limit_zero_is_default [OF parseInt_zero, of "Some (ascii ''99999999999999999999'')" ?d] h
  have 2: "get_leaderboard (Some (ascii ''0'')) (Some (ascii ''99999999999999999999'')) ?d =
     Inl StorageError"
    by blast
  from 1 2 show ?thesis by blast
qed

text \<open>
  After one Submit, the leaderboard requested with the limit 0 holds one entry.
\<close>

theorem limit_zero_not_empty:
  "map_sum id total
     (get_leaderboard (Some (ascii ''0'')) (Some (ascii ''0''))
        (snd (submit_score 1 (attempt ''A1'' (Val 100) Undefined) initial_db))) = Inr 1"
  unfolding get_leaderboard_cases
  by (simp add: limit_offset_def or_default_def sql_integer_def
      parseInt_zero ranked_scores_def submit_score_def upsertQuery_def excluded_row_def
      submit_params_def attempt_def initial_db_def next_rowid_def)

end
